theory Spec2Isabelle
  imports Main
begin

text \<open>
  The comment and patch layer of the document editor: the resolver that finds the range
  of an anchor in the live document (\<open>findAnchorRange.ts\<close>), the two stores in the
  browser storage (\<open>patchStore.ts\<close>, \<open>commentStore.ts\<close>), and the handlers of the comment
  panel that refresh the threads and accept or reject a patch, with the patch card that
  offers the two actions.
\<close>

section \<open>The editor document\<close>

text \<open>
  The document lives in the editor library (ProseMirror through Tiptap), which is not
  part of the repository. It is kept here in ProseMirror's flat indexing: the sequence of
  tokens between the two boundaries of the top node, so that the index of a token is its
  document position. A text node is one item that takes as many positions as it has
  characters (\<open>nodeSize\<close> of a text node is the length of its text); the start and the end
  of a non-leaf node and a leaf node take one position each. A leaf node carries what the
  library asks of its type: whether it is a block (a rule) or inline (a hard break, an
  image), and the text that the text serializer of its type renders (a line feed for a
  hard break, nothing where the type has no serializer). Every non-leaf node is taken to
  be a block without a text serializer, as the paragraphs, headings, quotes and lists of
  the editor are.
\<close>

text \<open>A mark: \<open>mark.type.name\<close> and \<open>mark.attrs.commentId\<close> (absent on other marks).\<close>

record mark =
  mark_type :: string
  commentId :: "string option"

datatype pm_item =
    TextNode string "mark list"
  | LeafNode bool string "mark list"
  | OpenNode
  | CloseNode

type_synonym pm_doc = "pm_item list"

fun isText :: "pm_item \<Rightarrow> bool" where
  "isText (TextNode s ms) = True"
| "isText x = False"

fun marks :: "pm_item \<Rightarrow> mark list" where
  "marks (TextNode s ms) = ms"
| "marks (LeafNode isBlock leafText ms) = ms"
| "marks x = []"

fun nodeText :: "pm_item \<Rightarrow> string" where
  "nodeText (TextNode s ms) = s"
| "nodeText x = []"

text \<open>The positions one item takes in the token sequence.\<close>

fun item_size :: "pm_item \<Rightarrow> nat" where
  "item_size (TextNode s ms) = length s"
| "item_size x = 1"

definition doc_size :: "pm_doc \<Rightarrow> nat" where
  "doc_size d = sum_list (map item_size d)"

text \<open>
  \<open>doc.descendants(f)\<close> calls \<open>f(node, pos)\<close> for every node below the top node, in
  document order, \<open>pos\<close> being the position where the node starts. The end of a node is
  a token but not a node, so it is passed over.
\<close>

fun descendants_from :: "nat \<Rightarrow> pm_doc \<Rightarrow> (pm_item \<times> nat) list" where
  "descendants_from pos [] = []"
| "descendants_from pos (CloseNode # rest) = descendants_from (pos + 1) rest"
| "descendants_from pos (node # rest) =
     (node, pos) # descendants_from (pos + item_size node) rest"

definition descendants :: "pm_doc \<Rightarrow> (pm_item \<times> nat) list" where
  "descendants d = descendants_from 0 d"

section \<open>Anchor resolution (findAnchorRange.ts)\<close>

text \<open>The test of the inner loop: a comment mark that carries the anchor identifier.\<close>

definition mark_matches :: "string \<Rightarrow> mark \<Rightarrow> bool" where
  "mark_matches anchorId m \<longleftrightarrow> mark_type m = ''comment'' \<and> commentId m = Some anchorId"

text \<open>
  One round of \<open>for (const mark of node.marks)\<close>, on the pair
  \<open>(foundFrom, foundTo)\<close> of the enclosing function.
\<close>

definition mark_step :: "string \<Rightarrow> pm_item \<Rightarrow> nat \<Rightarrow> mark \<Rightarrow> nat option \<times> nat option
    \<Rightarrow> nat option \<times> nat option" where
  "mark_step anchorId node pos m found =
     (if mark_matches anchorId m then
        (if fst found = None then (Some pos, Some (pos + item_size node))
         else (fst found, Some (pos + item_size node)))
      else found)"

text \<open>The callback handed to \<open>doc.descendants\<close>.\<close>

definition visit :: "string \<Rightarrow> pm_item \<times> nat \<Rightarrow> nat option \<times> nat option
    \<Rightarrow> nat option \<times> nat option" where
  "visit anchorId np found =
     (if isText (fst np) then fold (mark_step anchorId (fst np) (snd np)) (marks (fst np)) found
      else found)"

text \<open>\<open>findAnchorRange(editor, anchorId)\<close>; the editor handle may be null.\<close>

definition findAnchorRange :: "pm_doc option \<Rightarrow> string \<Rightarrow> (nat \<times> nat) option" where
  "findAnchorRange editor anchorId =
     (case editor of
        None \<Rightarrow> None
      | Some doc \<Rightarrow>
          (case fold (visit anchorId) (descendants doc) (None, None) of
             (Some foundFrom, Some foundTo) \<Rightarrow> Some (foundFrom, foundTo)
           | _ \<Rightarrow> None))"

text \<open>A text node that carries the annotation of an anchor.\<close>

definition annotated :: "string \<Rightarrow> pm_item \<Rightarrow> bool" where
  "annotated anchorId node \<longleftrightarrow> isText node \<and> (\<exists>m \<in> set (marks node). mark_matches anchorId m)"

text \<open>The mark the comment extension puts on the text of a thread.\<close>

definition comment_mark :: "string \<Rightarrow> mark" where
  "comment_mark threadId = \<lparr>mark_type = ''comment'', commentId = Some threadId\<rparr>"

text \<open>The visits of \<open>doc.descendants\<close> to such nodes, and the position where a visited node ends.\<close>

definition matching_nodes :: "string \<Rightarrow> pm_doc \<Rightarrow> (pm_item \<times> nat) list" where
  "matching_nodes anchorId d = filter (\<lambda>np. annotated anchorId (fst np)) (descendants d)"

definition node_end :: "pm_item \<times> nat \<Rightarrow> nat" where
  "node_end np = snd np + item_size (fst np)"

section \<open>Editing the document\<close>

text \<open>
  The content before a position and the content from a position on, as
  \<open>Fragment.cut\<close> of the library gives them: a text node that lies across the position
  is split there. Where the library joins neighbouring text nodes that carry the same
  marks, they are left apart here: the positions, their characters and their marks are
  the same.
\<close>

fun cut_before :: "nat \<Rightarrow> pm_doc \<Rightarrow> pm_doc" where
  "cut_before n [] = []"
| "cut_before n (x # rest) =
     (if n = 0 then []
      else if item_size x \<le> n then x # cut_before (n - item_size x) rest
      else (case x of TextNode s ms \<Rightarrow> [TextNode (take n s) ms] | _ \<Rightarrow> []))"

fun cut_after :: "nat \<Rightarrow> pm_doc \<Rightarrow> pm_doc" where
  "cut_after n [] = []"
| "cut_after n (x # rest) =
     (if n = 0 then x # rest
      else if item_size x \<le> n then cut_after (n - item_size x) rest
      else (case x of TextNode s ms \<Rightarrow> TextNode (drop n s) ms # rest | _ \<Rightarrow> x # rest))"

definition cut_between :: "nat \<Rightarrow> nat \<Rightarrow> pm_doc \<Rightarrow> pm_doc" where
  "cut_between from to d = cut_before (to - from) (cut_after from d)"

text \<open>The marks of the node at a position; a position where no node starts has none.\<close>

fun marks_at :: "nat \<Rightarrow> pm_doc \<Rightarrow> mark list" where
  "marks_at n [] = []"
| "marks_at n (x # rest) =
     (if n < item_size x then marks x else marks_at (n - item_size x) rest)"

text \<open>
  What a chain of commands works on: the document and the selection, from its start to
  its end.
\<close>

type_synonym editor_state = "pm_doc \<times> (nat \<times> nat)"

text \<open>
  \<open>setTextSelection({from, to})\<close>. The library moves a position outside the document to
  the first or last text position; the commands that follow are modelled for selections
  inside the document only, so the positions are taken as they come.
\<close>

definition setTextSelection :: "nat \<times> nat \<Rightarrow> pm_doc \<Rightarrow> editor_state" where
  "setTextSelection rng d = (d, rng)"

text \<open>
  \<open>insertContent(value)\<close> of the library parses a string as HTML and puts what the
  parse yields in the place of the selection. The part of it that is modelled: a string
  without markup (printable characters other than \<open><\<close> and \<open>&\<close>, not all of them
  spaces) parses as itself, and the library then calls \<open>insertText(value, from, to)\<close> of
  the transaction; for a selection that is not empty and lies within the inline content of
  one block, the range gives way to one text node, and the selection collapses to the end
  of the inserted text. The text node takes over marks of the node at the start of the
  range (\<open>marksAcross\<close>): those whose type is inclusive, which is the default of a mark
  type, and of the others those that the node at the end of the range carries too.

  The schema of the editor and the rest of the library are not part of the repository.
  They are a parameter: which mark types are inclusive, and what \<open>insertContent\<close> makes
  of any other string or selection (markup, which becomes nodes and marks; a range across
  the end of a block, which is fitted to the structure; an empty range).
\<close>

record library =
  inclusive :: "string \<Rightarrow> bool"
  beyond :: "string \<Rightarrow> editor_state \<Rightarrow> editor_state"

definition marksAcross :: "library \<Rightarrow> nat \<Rightarrow> nat \<Rightarrow> pm_doc \<Rightarrow> mark list" where
  "marksAcross lib from to d =
     filter (\<lambda>m. inclusive lib (mark_type m) \<or> m \<in> set (marks_at to d)) (marks_at from d)"

definition plain_text :: "string \<Rightarrow> bool" where
  "plain_text s \<longleftrightarrow>
     (\<exists>c \<in> set s. c \<noteq> CHR '' '')
     \<and> (\<forall>c \<in> set s. 0x20 \<le> (of_char c :: nat) \<and> (of_char c :: nat) < 0x7F
                       \<and> c \<noteq> CHR ''<'' \<and> c \<noteq> CHR ''&'')"

fun inline_item :: "pm_item \<Rightarrow> bool" where
  "inline_item (TextNode s ms) = True"
| "inline_item (LeafNode isBlock leafText ms) = (\<not> isBlock)"
| "inline_item x = False"

definition text_range :: "nat \<times> nat \<Rightarrow> pm_doc \<Rightarrow> bool" where
  "text_range rng d \<longleftrightarrow>
     fst rng < snd rng \<and> snd rng \<le> doc_size d
     \<and> list_all inline_item (cut_between (fst rng) (snd rng) d)"

definition insertContent :: "library \<Rightarrow> string \<Rightarrow> editor_state \<Rightarrow> editor_state" where
  "insertContent lib s e =
     (let d = fst e; from = fst (snd e); to = snd (snd e)
      in if plain_text s \<and> text_range (from, to) d then
           (cut_before from d @ [TextNode s (marksAcross lib from to d)] @ cut_after to d,
            (from + length s, from + length s))
         else beyond lib s e)"

fun strip_comment :: "pm_item \<Rightarrow> pm_item" where
  "strip_comment (TextNode s ms) = TextNode s (filter (\<lambda>m. mark_type m \<noteq> ''comment'') ms)"
| "strip_comment (LeafNode isBlock leafText ms) =
     LeafNode isBlock leafText (filter (\<lambda>m. mark_type m \<noteq> ''comment'') ms)"
| "strip_comment x = x"

text \<open>
  Modelled from the spec: the comment mark extension with its command \<open>unsetComment\<close> is
  not in the source. By the spec the anchor annotation is removed from the affected
  region within the same transaction. The command is called without an argument, so it
  names neither an identifier nor a range: it works as \<open>unsetMark\<close> of the library does,
  on the selection of the moment. Every mark of type \<open>comment\<close> within the selection
  goes, nothing else changes, and an empty selection loses no mark.
\<close>

definition unsetComment :: "editor_state \<Rightarrow> editor_state" where
  "unsetComment e =
     (let d = fst e; from = fst (snd e); to = snd (snd e)
      in if from < to then
           (cut_before from d @ map strip_comment (cut_between from to d) @ cut_after to d,
            snd e)
         else e)"

text \<open>
  The chain of the accept handler,
  \<open>focus().setTextSelection(range).insertContent(text).unsetComment().run()\<close>, and
  the document it leaves. \<open>focus\<close> does not touch the document.
\<close>

definition accept_transaction :: "library \<Rightarrow> nat \<times> nat \<Rightarrow> string \<Rightarrow> pm_doc \<Rightarrow> pm_doc" where
  "accept_transaction lib rng s d =
     fst (unsetComment (insertContent lib s (setTextSelection rng d)))"

text \<open>The chain of the reject handler, \<open>focus().setTextSelection(range).unsetComment().run()\<close>.\<close>

definition reject_transaction :: "nat \<times> nat \<Rightarrow> pm_doc \<Rightarrow> pm_doc" where
  "reject_transaction rng d = fst (unsetComment (setTextSelection rng d))"

text \<open>
  \<open>editor.getText()\<close> of the library walks over the nodes in document order: the block
  separator (two line feeds) goes before every block that starts after position 0, a
  node whose type has a text serializer gives the text of the serializer, a text node
  gives its text.
\<close>

fun getText_from :: "nat \<Rightarrow> pm_doc \<Rightarrow> string" where
  "getText_from pos [] = []"
| "getText_from pos (TextNode s ms # rest) = s @ getText_from (pos + length s) rest"
| "getText_from pos (LeafNode isBlock leafText ms # rest) =
     (if isBlock \<and> 0 < pos then [CHR 0x0A, CHR 0x0A] else []) @ leafText
       @ getText_from (pos + 1) rest"
| "getText_from pos (OpenNode # rest) =
     (if 0 < pos then [CHR 0x0A, CHR 0x0A] else []) @ getText_from (pos + 1) rest"
| "getText_from pos (CloseNode # rest) = getText_from (pos + 1) rest"

definition getText :: "pm_doc \<Rightarrow> string" where
  "getText d = getText_from 0 d"

text \<open>The document position by position, for stating what an edit leaves in place.\<close>

datatype pm_token =
    CharTok char "mark list"
  | LeafTok bool string "mark list"
  | OpenTok
  | CloseTok

fun tokens_of_item :: "pm_item \<Rightarrow> pm_token list" where
  "tokens_of_item (TextNode s ms) = map (\<lambda>c. CharTok c ms) s"
| "tokens_of_item (LeafNode isBlock leafText ms) = [LeafTok isBlock leafText ms]"
| "tokens_of_item OpenNode = [OpenTok]"
| "tokens_of_item CloseNode = [CloseTok]"

definition tokens :: "pm_doc \<Rightarrow> pm_token list" where
  "tokens d = concat (map tokens_of_item d)"

fun token_marks :: "pm_token \<Rightarrow> mark list" where
  "token_marks (CharTok c ms) = ms"
| "token_marks (LeafTok isBlock leafText ms) = ms"
| "token_marks t = []"

fun unmarked :: "pm_token \<Rightarrow> pm_token" where
  "unmarked (CharTok c ms) = CharTok c []"
| "unmarked (LeafTok isBlock leafText ms) = LeafTok isBlock leafText []"
| "unmarked t = t"

text \<open>What \<open>unsetComment\<close> does to one position.\<close>

fun strip_token :: "pm_token \<Rightarrow> pm_token" where
  "strip_token (CharTok c ms) = CharTok c (filter (\<lambda>m. mark_type m \<noteq> ''comment'') ms)"
| "strip_token (LeafTok isBlock leafText ms) =
     LeafTok isBlock leafText (filter (\<lambda>m. mark_type m \<noteq> ''comment'') ms)"
| "strip_token t = t"

text \<open>The plain text read off the positions, as \<open>getText\<close> reads it off the nodes.\<close>

fun tokens_text :: "nat \<Rightarrow> pm_token list \<Rightarrow> string" where
  "tokens_text pos [] = []"
| "tokens_text pos (CharTok c ms # rest) = c # tokens_text (pos + 1) rest"
| "tokens_text pos (LeafTok isBlock leafText ms # rest) =
     (if isBlock \<and> 0 < pos then [CHR 0x0A, CHR 0x0A] else []) @ leafText
       @ tokens_text (pos + 1) rest"
| "tokens_text pos (OpenTok # rest) =
     (if 0 < pos then [CHR 0x0A, CHR 0x0A] else []) @ tokens_text (pos + 1) rest"
| "tokens_text pos (CloseTok # rest) = tokens_text (pos + 1) rest"

section \<open>Strings of the host language\<close>

text \<open>
  Strings are taken with 8-bit code units. \<open>String.prototype.trim\<close> removes white space
  and line terminators at both ends; these are the ones among the 8-bit code units.
\<close>

definition is_white_space :: "char \<Rightarrow> bool" where
  "is_white_space c \<longleftrightarrow>
     c \<in> {CHR 0x09, CHR 0x0A, CHR 0x0B, CHR 0x0C, CHR 0x0D, CHR 0x20, CHR 0xA0}"

definition trim :: "string \<Rightarrow> string" where
  "trim s = rev (dropWhile is_white_space (rev (dropWhile is_white_space s)))"

text \<open>\<open>String.prototype.indexOf\<close>: the first index of an occurrence, \<open>None\<close> for -1.\<close>

fun indexOf :: "string \<Rightarrow> string \<Rightarrow> nat option" where
  "indexOf [] searchString = (if searchString = [] then Some 0 else None)"
| "indexOf (c # s) searchString =
     (if take (length searchString) (c # s) = searchString then Some 0
      else map_option Suc (indexOf s searchString))"

text \<open>\<open>Array.prototype.findIndex\<close>, \<open>None\<close> for -1.\<close>

fun findIndex :: "('a \<Rightarrow> bool) \<Rightarrow> 'a list \<Rightarrow> nat option" where
  "findIndex P [] = None"
| "findIndex P (x # xs) = (if P x then Some 0 else map_option Suc (findIndex P xs))"

section \<open>Persisted records (lib/types)\<close>

datatype AIPatchStatus = status_open | status_accepted | status_rejected

record AIPatch =
  patch_id :: string
  patch_documentId :: string
  anchorId :: string
  originalText :: string
  proposedText :: string
  status :: AIPatchStatus
  patch_createdAt :: int
  patch_updatedAt :: int

text \<open>\<open>Partial<Omit<AIPatch, "id" | "documentId" | "createdAt">>\<close>: each field may be absent.\<close>

record AIPatchUpdates =
  upd_anchorId :: "string option"
  upd_originalText :: "string option"
  upd_proposedText :: "string option"
  upd_status :: "AIPatchStatus option"
  upd_updatedAt :: "int option"

text \<open>
  What the comment store reads of a stored element, whatever else it carries: the store
  in the source holds \<open>Comment\<close> values, the panel reads \<open>CommentThread\<close> values through
  the same functions.
\<close>

record stored_comment =
  comment_id :: string
  documentId :: string
  createdAt :: int
  updatedAt :: int

record Comment = stored_comment +
  content :: string
  highlightedText :: string

datatype message_status = pending | complete | error

record CommentMessage =
  message_id :: string
  message_content :: string
  author :: string
  message_createdAt :: int
  message_updatedAt :: int
  message_status :: "message_status option"

datatype ai_mode = critique | synthesize

record CommentThread = stored_comment +
  thread_highlightedText :: string
  messages :: "CommentMessage list"
  resolved :: bool
  isAIThread :: bool
  aiMode :: "ai_mode option"

section \<open>Browser storage\<close>

text \<open>
  The string under a key, by what the stores can make of it: the empty string, which
  they take for no string at all; a string that is not JSON, on which \<open>JSON.parse\<close> raises
  a syntax error; the JSON text \<open>null\<close>, which \<open>JSON.parse\<close> returns as \<open>null\<close> without
  raising; and the JSON text of a value, which is taken at the type the source declares
  for it, as the stores themselves write it. A JSON text of another value that is not of
  the declared type (a number or an object under the comment key) is not kept apart: for
  the comment store, whose callers apply an array method first, it fails as \<open>null\<close> does.
\<close>

datatype 'a stored = Empty | Corrupt | Null | Json 'a

datatype js_error = ReferenceError | StorageError | SyntaxError | TypeError

text \<open>
  \<open>localStorage\<close> with the two keys of the stores. Without a window the name
  \<open>localStorage\<close> is unbound; with one, reading and writing may each raise
  (storage disabled, quota exceeded).
\<close>

record 'c localStorage =
  has_window :: bool
  getItem_raises :: bool
  setItem_raises :: bool
  comments_key :: "'c list stored option"
  patches_key :: "(string \<rightharpoonup> AIPatch list) stored option"

text \<open>\<open>JSON.parse\<close>; the result \<open>None\<close> is the value \<open>null\<close>.\<close>

definition JSON_parse :: "'a stored \<Rightarrow> js_error + 'a option" where
  "JSON_parse raw =
     (case raw of
        Empty \<Rightarrow> Inl SyntaxError
      | Corrupt \<Rightarrow> Inl SyntaxError
      | Null \<Rightarrow> Inr None
      | Json v \<Rightarrow> Inr (Some v))"

definition getItem_patches :: "'c localStorage \<Rightarrow> js_error + (string \<rightharpoonup> AIPatch list) stored option" where
  "getItem_patches ls =
     (if \<not> has_window ls then Inl ReferenceError
      else if getItem_raises ls then Inl StorageError
      else Inr (patches_key ls))"

definition setItem_patches :: "(string \<rightharpoonup> AIPatch list) \<Rightarrow> 'c localStorage \<Rightarrow> js_error + 'c localStorage" where
  "setItem_patches v ls =
     (if \<not> has_window ls then Inl ReferenceError
      else if setItem_raises ls then Inl StorageError
      else Inr (ls\<lparr>patches_key := Some (Json v)\<rparr>))"

definition getItem_comments :: "'c localStorage \<Rightarrow> js_error + 'c list stored option" where
  "getItem_comments ls =
     (if \<not> has_window ls then Inl ReferenceError
      else if getItem_raises ls then Inl StorageError
      else Inr (comments_key ls))"

definition setItem_comments :: "'c list \<Rightarrow> 'c localStorage \<Rightarrow> js_error + 'c localStorage" where
  "setItem_comments v ls =
     (if \<not> has_window ls then Inl ReferenceError
      else if setItem_raises ls then Inl StorageError
      else Inr (ls\<lparr>comments_key := Some (Json v)\<rparr>))"

section \<open>The patch store (patchStore.ts)\<close>

text \<open>
  Each function is its \<open>try\<close> block, where a raise is the value \<open>Inl\<close>, and around it the
  \<open>catch\<close> branch. A missing string and the empty string are the two values for which
  \<open>!stored\<close> holds. Reading a property of \<open>null\<close> raises a type error. Writing to the
  console is left out.
\<close>

definition getPatches_try :: "string \<Rightarrow> 'c localStorage \<Rightarrow> js_error + AIPatch list" where
  "getPatches_try docId ls =
     (case getItem_patches ls of
        Inl e \<Rightarrow> Inl e
      | Inr None \<Rightarrow> Inr []
      | Inr (Some Empty) \<Rightarrow> Inr []
      | Inr (Some stored) \<Rightarrow>
          (case JSON_parse stored of
             Inl e \<Rightarrow> Inl e
           | Inr None \<Rightarrow> Inl TypeError
           | Inr (Some storage) \<Rightarrow>
               Inr (case storage docId of None \<Rightarrow> [] | Some patches \<Rightarrow> patches)))"

definition getPatches :: "string \<Rightarrow> 'c localStorage \<Rightarrow> AIPatch list" where
  "getPatches docId ls =
     (if \<not> has_window ls then []
      else (case getPatches_try docId ls of Inl e \<Rightarrow> [] | Inr patches \<Rightarrow> patches))"

definition getOpenPatchByAnchor :: "string \<Rightarrow> string \<Rightarrow> 'c localStorage \<Rightarrow> AIPatch option" where
  "getOpenPatchByAnchor docId anchor ls =
     find (\<lambda>p. anchorId p = anchor \<and> status p = status_open) (getPatches docId ls)"

text \<open>
  \<open>createPatch\<close>; the clock and the generated identifier are inputs. The new patch is
  returned also when storing it fails.
\<close>

definition createPatch_try :: "AIPatch \<Rightarrow> 'c localStorage \<Rightarrow> js_error + 'c localStorage" where
  "createPatch_try newPatch ls =
     (case getItem_patches ls of
        Inl e \<Rightarrow> Inl e
      | Inr stored \<Rightarrow>
          (case (case stored of
                   None \<Rightarrow> Inr (Some Map.empty)
                 | Some Empty \<Rightarrow> Inr (Some Map.empty)
                 | Some raw \<Rightarrow> JSON_parse raw) of
             Inl e \<Rightarrow> Inl e
           | Inr None \<Rightarrow> Inl TypeError
           | Inr (Some storage) \<Rightarrow>
               (let patches = (case storage (patch_documentId newPatch) of
                                 None \<Rightarrow> []
                               | Some patches \<Rightarrow> patches)
                in setItem_patches
                     (storage(patch_documentId newPatch \<mapsto> patches @ [newPatch])) ls)))"

definition createPatch :: "int \<Rightarrow> string \<Rightarrow> string \<Rightarrow> string \<Rightarrow> string \<Rightarrow> string
    \<Rightarrow> 'c localStorage \<Rightarrow> AIPatch \<times> 'c localStorage" where
  "createPatch now newId docId anchor original proposed ls =
     (let newPatch = \<lparr>patch_id = newId, patch_documentId = docId, anchorId = anchor,
                       originalText = original, proposedText = proposed,
                       status = status_open, patch_createdAt = now, patch_updatedAt = now\<rparr>
      in (case createPatch_try newPatch ls of
            Inl e \<Rightarrow> (newPatch, ls)
          | Inr ls' \<Rightarrow> (newPatch, ls')))"

text \<open>\<open>{...patches[patchIndex], ...updates, updatedAt: Date.now()}\<close>\<close>

definition apply_updates :: "int \<Rightarrow> AIPatchUpdates \<Rightarrow> AIPatch \<Rightarrow> AIPatch" where
  "apply_updates now updates p =
     p\<lparr>anchorId := (case upd_anchorId updates of None \<Rightarrow> anchorId p | Some v \<Rightarrow> v),
       originalText := (case upd_originalText updates of None \<Rightarrow> originalText p | Some v \<Rightarrow> v),
       proposedText := (case upd_proposedText updates of None \<Rightarrow> proposedText p | Some v \<Rightarrow> v),
       status := (case upd_status updates of None \<Rightarrow> status p | Some v \<Rightarrow> v),
       patch_updatedAt := now\<rparr>"

definition updatePatch_try :: "int \<Rightarrow> string \<Rightarrow> string \<Rightarrow> AIPatchUpdates \<Rightarrow> 'c localStorage
    \<Rightarrow> js_error + AIPatch option \<times> 'c localStorage" where
  "updatePatch_try now docId patchId updates ls =
     (case getItem_patches ls of
        Inl e \<Rightarrow> Inl e
      | Inr None \<Rightarrow> Inr (None, ls)
      | Inr (Some Empty) \<Rightarrow> Inr (None, ls)
      | Inr (Some stored) \<Rightarrow>
          (case JSON_parse stored of
             Inl e \<Rightarrow> Inl e
           | Inr None \<Rightarrow> Inl TypeError
           | Inr (Some storage) \<Rightarrow>
               (case storage docId of
                  None \<Rightarrow> Inr (None, ls)
                | Some patches \<Rightarrow>
                    (case findIndex (\<lambda>p. patch_id p = patchId) patches of
                       None \<Rightarrow> Inr (None, ls)
                     | Some patchIndex \<Rightarrow>
                         (let updatedPatch = apply_updates now updates (patches ! patchIndex)
                          in (case setItem_patches
                                     (storage(docId \<mapsto> patches[patchIndex := updatedPatch])) ls of
                                Inl e \<Rightarrow> Inl e
                              | Inr ls' \<Rightarrow> Inr (Some updatedPatch, ls')))))))"

definition updatePatch :: "int \<Rightarrow> string \<Rightarrow> string \<Rightarrow> AIPatchUpdates \<Rightarrow> 'c localStorage
    \<Rightarrow> AIPatch option \<times> 'c localStorage" where
  "updatePatch now docId patchId updates ls =
     (case updatePatch_try now docId patchId updates ls of
        Inl e \<Rightarrow> (None, ls)
      | Inr r \<Rightarrow> r)"

definition deletePatch_try :: "string \<Rightarrow> string \<Rightarrow> 'c localStorage \<Rightarrow> js_error + 'c localStorage" where
  "deletePatch_try docId patchId ls =
     (case getItem_patches ls of
        Inl e \<Rightarrow> Inl e
      | Inr None \<Rightarrow> Inr ls
      | Inr (Some Empty) \<Rightarrow> Inr ls
      | Inr (Some stored) \<Rightarrow>
          (case JSON_parse stored of
             Inl e \<Rightarrow> Inl e
           | Inr None \<Rightarrow> Inl TypeError
           | Inr (Some storage) \<Rightarrow>
               (case storage docId of
                  None \<Rightarrow> Inr ls
                | Some patches \<Rightarrow>
                    setItem_patches
                      (storage(docId \<mapsto> filter (\<lambda>p. patch_id p \<noteq> patchId) patches)) ls)))"

definition deletePatch :: "string \<Rightarrow> string \<Rightarrow> 'c localStorage \<Rightarrow> 'c localStorage" where
  "deletePatch docId patchId ls =
     (case deletePatch_try docId patchId ls of Inl e \<Rightarrow> ls | Inr ls' \<Rightarrow> ls')"

section \<open>The comment store (commentStore.ts)\<close>

text \<open>
  \<open>readFromStorage\<close> hands on what \<open>JSON.parse\<close> returns, so its result may be \<open>null\<close>
  (the value \<open>None\<close>) where the source declares an array.
\<close>

definition readFromStorage_try :: "'c localStorage \<Rightarrow> js_error + 'c list option" where
  "readFromStorage_try ls =
     (case getItem_comments ls of
        Inl e \<Rightarrow> Inl e
      | Inr None \<Rightarrow> Inr (Some [])
      | Inr (Some Empty) \<Rightarrow> Inr (Some [])
      | Inr (Some data) \<Rightarrow> JSON_parse data)"

definition readFromStorage :: "'c localStorage \<Rightarrow> 'c list option" where
  "readFromStorage ls =
     (if \<not> has_window ls then Some []
      else (case readFromStorage_try ls of Inl e \<Rightarrow> Some [] | Inr comments \<Rightarrow> comments))"

definition writeToStorage :: "'c list \<Rightarrow> 'c localStorage \<Rightarrow> 'c localStorage" where
  "writeToStorage comments ls =
     (if \<not> has_window ls then ls
      else (case setItem_comments comments ls of Inl e \<Rightarrow> ls | Inr ls' \<Rightarrow> ls'))"

text \<open>
  The exported functions call a method of what \<open>readFromStorage\<close> returns outside any
  \<open>try\<close>: on \<open>null\<close> the call raises a type error, which leaves the function. The sort
  of the host language is stable, as \<open>sort_key\<close> is.
\<close>

definition getDocumentComments :: "string \<Rightarrow> ('a stored_comment_scheme) localStorage
    \<Rightarrow> js_error + 'a stored_comment_scheme list" where
  "getDocumentComments docId ls =
     (case readFromStorage ls of
        None \<Rightarrow> Inl TypeError
      | Some comments \<Rightarrow>
          Inr (sort_key createdAt (filter (\<lambda>c. documentId c = docId) comments)))"

definition getComment :: "string \<Rightarrow> ('a stored_comment_scheme) localStorage
    \<Rightarrow> js_error + 'a stored_comment_scheme option" where
  "getComment cid ls =
     (case readFromStorage ls of
        None \<Rightarrow> Inl TypeError
      | Some comments \<Rightarrow> Inr (find (\<lambda>c. comment_id c = cid) comments))"

text \<open>\<open>createComment\<close>; the clock and the generated identifier are inputs.\<close>

definition createComment :: "int \<Rightarrow> string \<Rightarrow> string \<Rightarrow> string \<Rightarrow> string \<Rightarrow> Comment localStorage
    \<Rightarrow> js_error + Comment \<times> Comment localStorage" where
  "createComment now newId docId body highlighted ls =
     (let newComment = \<lparr>comment_id = newId, documentId = docId, createdAt = now,
                         updatedAt = now, content = body, highlightedText = highlighted\<rparr>
      in (case readFromStorage ls of
            None \<Rightarrow> Inl TypeError
          | Some comments \<Rightarrow> Inr (newComment, writeToStorage (comments @ [newComment]) ls)))"

definition updateComment :: "int \<Rightarrow> string \<Rightarrow> string \<Rightarrow> Comment localStorage
    \<Rightarrow> js_error + Comment localStorage" where
  "updateComment now cid body ls =
     (case readFromStorage ls of
        None \<Rightarrow> Inl TypeError
      | Some comments \<Rightarrow>
          (case findIndex (\<lambda>c. comment_id c = cid) comments of
             None \<Rightarrow> Inr ls
           | Some index \<Rightarrow>
               Inr (writeToStorage
                      (comments[index := (comments ! index)\<lparr>content := body, updatedAt := now\<rparr>])
                      ls)))"

definition deleteComment :: "string \<Rightarrow> ('a stored_comment_scheme) localStorage
    \<Rightarrow> js_error + ('a stored_comment_scheme) localStorage" where
  "deleteComment cid ls =
     (case readFromStorage ls of
        None \<Rightarrow> Inl TypeError
      | Some comments \<Rightarrow>
          (let filtered = filter (\<lambda>c. comment_id c \<noteq> cid) comments
           in Inr (writeToStorage filtered ls)))"

definition deleteDocumentComments :: "string \<Rightarrow> ('a stored_comment_scheme) localStorage
    \<Rightarrow> js_error + ('a stored_comment_scheme) localStorage" where
  "deleteDocumentComments docId ls =
     (case readFromStorage ls of
        None \<Rightarrow> Inl TypeError
      | Some comments \<Rightarrow>
          (let filtered = filter (\<lambda>c. documentId c \<noteq> docId) comments
           in Inr (writeToStorage filtered ls)))"

text \<open>
  Modelled from the spec: \<open>toggleResolveThread\<close> of the comment store is not in the
  source. By the spec a thread goes from unresolved to resolved and back by an explicit
  action; the panel calls this one function, with the thread identifier alone, both for
  its Resolve and for its Reopen button, so it flips the flag of that thread. It is taken
  to read and write through the two helpers of the store; by the spec a failure of the
  persisted store is never propagated, so a value under the key that is no array leaves
  the storage as it is.
\<close>

definition toggleResolveThread :: "string \<Rightarrow> CommentThread localStorage \<Rightarrow> CommentThread localStorage" where
  "toggleResolveThread threadId ls =
     (case readFromStorage ls of
        None \<Rightarrow> ls
      | Some threads \<Rightarrow>
          (case findIndex (\<lambda>t. comment_id t = threadId) threads of
             None \<Rightarrow> ls
           | Some index \<Rightarrow>
               writeToStorage
                 (threads[index := (threads ! index)\<lparr>resolved := \<not> resolved (threads ! index)\<rparr>])
                 ls))"

section \<open>The comment panel\<close>

text \<open>
  Modelled from the spec: \<open>getAllCommentData\<close> of the editor component is not in the
  source. By the spec it maps every identifier that annotates text of the live document
  to that text and to its position.
\<close>

definition getAllCommentData :: "pm_doc \<Rightarrow> (string \<rightharpoonup> string \<times> nat)" where
  "getAllCommentData d = (\<lambda>cid.
     (case filter (\<lambda>np. annotated cid (fst np)) (descendants d) of
        [] \<Rightarrow> None
      | m # ms \<Rightarrow> Some (concat (map (\<lambda>np. nodeText (fst np)) (m # ms)), snd m)))"

text \<open>A stored thread that the cleanup of the refresh takes for an orphan.\<close>

definition orphaned :: "pm_doc \<Rightarrow> string \<Rightarrow> CommentThread \<Rightarrow> bool" where
  "orphaned doc docId thread \<longleftrightarrow>
     documentId thread = docId \<and> \<not> isAIThread thread
     \<and> (\<forall>n \<in> set doc. \<not> annotated (comment_id thread) n)"

text \<open>
  What the handlers of the panel read and write: the editor handle (absent while the
  editor is not mounted) with its document and with what its library does outside the
  modelled part, the browser storage, the state of the component, and what leaves the
  panel: the calls of \<open>alert\<close> and of the \<open>onDeleteComment\<close> property, and the
  exceptions that no handler catches. A handler that raises one stops there; what it has
  done up to then stays done.
\<close>

record panel =
  editor :: "pm_doc option"
  library :: library
  storage :: "CommentThread localStorage"
  threads :: "CommentThread list"
  commentData :: "string \<rightharpoonup> string \<times> nat"
  patches :: "string \<rightharpoonup> AIPatch"
  alerts :: "string list"
  onDeleteComment_calls :: "string list"
  uncaught :: "js_error list"

text \<open>
  The \<open>forEach\<close> over the orphaned threads: \<open>deleteComment\<close>, then \<open>onDeleteComment\<close>,
  for one thread after the other, up to the first call that raises.
\<close>

fun delete_orphans :: "CommentThread list \<Rightarrow> panel \<Rightarrow> panel \<times> js_error option" where
  "delete_orphans [] st = (st, None)"
| "delete_orphans (thread # rest) st =
     (case deleteComment (comment_id thread) (storage st) of
        Inl e \<Rightarrow> (st, Some e)
      | Inr ls \<Rightarrow>
          delete_orphans rest
            (st\<lparr>storage := ls,
                onDeleteComment_calls := onDeleteComment_calls st @ [comment_id thread]\<rparr>))"

definition refreshCommentData :: "string \<Rightarrow> panel \<Rightarrow> panel" where
  "refreshCommentData docId st =
     (case editor st of
        None \<Rightarrow> st
      | Some doc \<Rightarrow>
          (let data = getAllCommentData doc;
               st1 = st\<lparr>commentData := data\<rparr>
           in (case getDocumentComments docId (storage st1) of
                 Inl e \<Rightarrow> st1\<lparr>uncaught := uncaught st1 @ [e]\<rparr>
               | Inr storedThreads \<Rightarrow>
                   (let orphanedThreads =
                          filter (\<lambda>thread. \<not> isAIThread thread \<and> data (comment_id thread) = None)
                            storedThreads
                    in if 0 < length orphanedThreads then
                         (case delete_orphans orphanedThreads st1 of
                            (st2, Some e) \<Rightarrow> st2\<lparr>uncaught := uncaught st2 @ [e]\<rparr>
                          | (st2, None) \<Rightarrow>
                              (case getDocumentComments docId (storage st2) of
                                 Inl e \<Rightarrow> st2\<lparr>uncaught := uncaught st2 @ [e]\<rparr>
                               | Inr docs \<Rightarrow> st2\<lparr>threads := docs\<rparr>))
                       else st1))))"

text \<open>
  \<open>loadPatches\<close>: the loop that fills \<open>patchMap\<close>, then \<open>setPatches\<close>. The last patch of
  an anchor is the one the panel shows.
\<close>

definition patch_map :: "AIPatch list \<Rightarrow> (string \<rightharpoonup> AIPatch)" where
  "patch_map ps = fold (\<lambda>patch patchMap. patchMap(anchorId patch \<mapsto> patch)) ps Map.empty"

definition loadPatches :: "string \<Rightarrow> panel \<Rightarrow> panel" where
  "loadPatches docId st = st\<lparr>patches := patch_map (getPatches docId (storage st))\<rparr>"

text \<open>\<open>loadThreads\<close>; the refresh it schedules on a timer is a later event.\<close>

definition loadThreads :: "string \<Rightarrow> panel \<Rightarrow> panel" where
  "loadThreads docId st =
     (case getDocumentComments docId (storage st) of
        Inl e \<Rightarrow> st\<lparr>uncaught := uncaught st @ [e]\<rparr>
      | Inr docs \<Rightarrow> st\<lparr>threads := docs\<rparr>)"

definition not_found_message :: string where
  "not_found_message =
     ''Could not find the original text in the document. It may have been edited.''"

text \<open>
  The range the accept handler settles on, by the way it comes to it: from the mark, in
  which case the block of the text search is not entered; from the text search; or not
  at all.
\<close>

definition searchText :: "AIPatch \<Rightarrow> string" where
  "searchText patch = trim (originalText patch)"

datatype lookup = by_anchor "nat \<times> nat" | by_text "nat \<times> nat" | not_found

definition accept_lookup :: "pm_doc \<Rightarrow> string \<Rightarrow> AIPatch \<Rightarrow> lookup" where
  "accept_lookup doc threadId patch =
     (case findAnchorRange (Some doc) threadId of
        Some rng \<Rightarrow> by_anchor rng
      | None \<Rightarrow>
          (let docText = getText doc
           in (case indexOf docText (searchText patch) of
                 Some index \<Rightarrow> by_text (index + 1, index + 1 + length (searchText patch))
               | None \<Rightarrow> not_found)))"

fun found_range :: "lookup \<Rightarrow> (nat \<times> nat) option" where
  "found_range (by_anchor rng) = Some rng"
| "found_range (by_text rng) = Some rng"
| "found_range not_found = None"

definition accept_range :: "pm_doc \<Rightarrow> string \<Rightarrow> AIPatch \<Rightarrow> (nat \<times> nat) option" where
  "accept_range doc threadId patch = found_range (accept_lookup doc threadId patch)"

definition set_status :: "AIPatchStatus \<Rightarrow> AIPatchUpdates" where
  "set_status v = \<lparr>upd_anchorId = None, upd_originalText = None, upd_proposedText = None,
                       upd_status = Some v, upd_updatedAt = None\<rparr>"

definition handleAcceptPatch :: "int \<Rightarrow> string \<Rightarrow> string \<Rightarrow> AIPatch \<Rightarrow> panel \<Rightarrow> panel" where
  "handleAcceptPatch now docId threadId patch st =
     (case editor st of
        None \<Rightarrow> st
      | Some doc \<Rightarrow>
          (case accept_range doc threadId patch of
             None \<Rightarrow> st\<lparr>alerts := alerts st @ [not_found_message]\<rparr>
           | Some rng \<Rightarrow>
               (let st1 = st\<lparr>editor := Some (accept_transaction (library st) rng
                                                (proposedText patch) doc)\<rparr>;
                    st2 = st1\<lparr>storage := snd (updatePatch now docId (patch_id patch)
                                                 (set_status status_accepted) (storage st1))\<rparr>;
                    st3 = st2\<lparr>storage := toggleResolveThread threadId (storage st2)\<rparr>
                in loadThreads docId (loadPatches docId st3))))"

definition handleRejectPatch :: "int \<Rightarrow> string \<Rightarrow> string \<Rightarrow> AIPatch \<Rightarrow> panel \<Rightarrow> panel" where
  "handleRejectPatch now docId threadId patch st =
     (case editor st of
        None \<Rightarrow> st
      | Some doc \<Rightarrow>
          (let st1 = (case findAnchorRange (Some doc) threadId of
                        Some rng \<Rightarrow> st\<lparr>editor := Some (reject_transaction rng doc)\<rparr>
                      | None \<Rightarrow> st);
               st2 = st1\<lparr>storage := snd (updatePatch now docId (patch_id patch)
                                            (set_status status_rejected) (storage st1))\<rparr>;
               st3 = st2\<lparr>storage := toggleResolveThread threadId (storage st2)\<rparr>
           in loadThreads docId (loadPatches docId st3)))"

section \<open>The patch card (PatchCard.tsx)\<close>

text \<open>
  The card shows its Accept and Reject buttons only while the patch is open
  (\<open>isResolved = patch.status !== "open"\<close>); the thread card shows the patch card of the
  patch the panel holds for the thread. So this is what a click on Accept does.
\<close>

definition isResolved :: "AIPatch \<Rightarrow> bool" where
  "isResolved patch \<longleftrightarrow> status patch \<noteq> status_open"

definition click_accept :: "int \<Rightarrow> string \<Rightarrow> string \<Rightarrow> panel \<Rightarrow> panel" where
  "click_accept now docId threadId st =
     (case patches st threadId of
        None \<Rightarrow> st
      | Some patch \<Rightarrow>
          (if \<not> isResolved patch then handleAcceptPatch now docId threadId patch st else st))"

section \<open>Vocabulary of the statements\<close>

text \<open>The patches stored for a document, as the string under the key holds them.\<close>

definition stored_patches :: "'c localStorage \<Rightarrow> string \<Rightarrow> AIPatch list option" where
  "stored_patches ls d = (case patches_key ls of Some (Json m) \<Rightarrow> m d | _ \<Rightarrow> None)"

text \<open>
  The failures of the storage: the string under a key cannot be read, or is not JSON;
  nothing can be written. And the one value under the comment key that parses and is no
  array.
\<close>

definition patches_unreadable :: "'c localStorage \<Rightarrow> bool" where
  "patches_unreadable ls \<longleftrightarrow>
     \<not> has_window ls \<or> getItem_raises ls \<or> patches_key ls = Some Corrupt"

definition comments_unreadable :: "'c localStorage \<Rightarrow> bool" where
  "comments_unreadable ls \<longleftrightarrow>
     \<not> has_window ls \<or> getItem_raises ls \<or> comments_key ls = Some Corrupt"

definition unwritable :: "'c localStorage \<Rightarrow> bool" where
  "unwritable ls \<longleftrightarrow> \<not> has_window ls \<or> setItem_raises ls"

definition comments_null :: "'c localStorage \<Rightarrow> bool" where
  "comments_null ls \<longleftrightarrow>
     has_window ls \<and> \<not> getItem_raises ls \<and> comments_key ls = Some Null"

section \<open>Concrete inputs\<close>

text \<open>
  A patch that proposes \<open>baz\<close> for \<open>foo\<close>, a thread, a storage that works and one that
  raises on every access, a schema with the defaults of the library, and a panel that
  has just been mounted on a document. None of the examples leaves the modelled part of
  the library, which is taken here to leave the editor as it is.
\<close>

definition example_patch :: "string \<Rightarrow> string \<Rightarrow> string \<Rightarrow> AIPatchStatus \<Rightarrow> AIPatch" where
  "example_patch pid docId threadId st =
     \<lparr>patch_id = pid, patch_documentId = docId, anchorId = threadId, originalText = ''foo'',
      proposedText = ''baz'', status = st, patch_createdAt = 10, patch_updatedAt = 10\<rparr>"

definition example_thread :: "string \<Rightarrow> string \<Rightarrow> bool \<Rightarrow> bool \<Rightarrow> CommentThread" where
  "example_thread threadId docId res ai =
     \<lparr>comment_id = threadId, documentId = docId, createdAt = 1, updatedAt = 1,
      thread_highlightedText = ''foo'', messages = [], resolved = res, isAIThread = ai,
      aiMode = None\<rparr>"

definition example_storage :: "'c list stored option \<Rightarrow> (string \<rightharpoonup> AIPatch list) stored option
    \<Rightarrow> 'c localStorage" where
  "example_storage cs ps =
     \<lparr>has_window = True, getItem_raises = False, setItem_raises = False,
      comments_key = cs, patches_key = ps\<rparr>"

definition unavailable_storage :: "'c list stored option \<Rightarrow> (string \<rightharpoonup> AIPatch list) stored option
    \<Rightarrow> 'c localStorage" where
  "unavailable_storage cs ps =
     \<lparr>has_window = True, getItem_raises = True, setItem_raises = True,
      comments_key = cs, patches_key = ps\<rparr>"

definition example_library :: library where
  "example_library = \<lparr>inclusive = (\<lambda>t. True), beyond = (\<lambda>s e. e)\<rparr>"

definition example_panel :: "pm_doc \<Rightarrow> CommentThread localStorage \<Rightarrow> panel" where
  "example_panel doc ls =
     \<lparr>editor = Some doc, library = example_library, storage = ls, threads = [],
      commentData = Map.empty, patches = Map.empty, alerts = [], onDeleteComment_calls = [],
      uncaught = []\<rparr>"

section \<open>Properties of anchor resolution\<close>

lemma fold_mark_step:
  "fold (mark_step X n p) ms found =
     (if \<exists>m \<in> set ms. mark_matches X m
      then (if fst found = None then Some p else fst found, Some (p + item_size n))
      else found)"
  by (induction ms arbitrary: found) (auto simp: mark_step_def)

lemma visit_eq:
  "visit X (n, p) found =
     (if annotated X n
      then (if fst found = None then Some p else fst found, Some (p + item_size n))
      else found)"
  by (simp add: visit_def annotated_def fold_mark_step)

lemma fold_visit:
  "fold (visit X) vs found =
     (case filter (\<lambda>np. annotated X (fst np)) vs of
        [] \<Rightarrow> found
      | m # ms \<Rightarrow> (if fst found = None then Some (snd m) else fst found,
                  Some (node_end (last (m # ms)))))"
proof (induction vs arbitrary: found)
  case Nil
  then show ?case by simp
next
  case (Cons v vs)
  obtain n p where v: "v = (n, p)" by (cases v)
  show ?case
    by (cases "annotated X n")
       (auto simp: v Cons visit_eq node_end_def split: list.splits)
qed

lemma findAnchorRange_matching:
  "findAnchorRange (Some d) X =
     (case matching_nodes X d of
        [] \<Rightarrow> None
      | m # ms \<Rightarrow> Some (snd m, node_end (last (m # ms))))"
  by (simp add: findAnchorRange_def matching_nodes_def fold_visit split: list.splits)

lemma doc_size_Cons: "doc_size (x # d) = item_size x + doc_size d"
  by (simp add: doc_size_def)

lemma doc_size_append: "doc_size (a @ b) = doc_size a + doc_size b"
  by (simp add: doc_size_def)

lemma descendants_from_append:
  "descendants_from pos (a @ b) = descendants_from pos a @ descendants_from (pos + doc_size a) b"
  by (induction pos a rule: descendants_from.induct)
     (simp_all add: doc_size_Cons doc_size_def add.assoc)

lemma filter_descendants_none:
  "\<forall>n \<in> set a. \<not> annotated X n \<Longrightarrow>
     filter (\<lambda>np. annotated X (fst np)) (descendants_from pos a) = []"
  by (induction pos a rule: descendants_from.induct) auto

lemma descendants_from_text:
  "isText n \<Longrightarrow> n \<in> set a \<Longrightarrow> n \<in> fst ` set (descendants_from pos a)"
proof (induction a arbitrary: pos)
  case Nil
  then show ?case by simp
next
  case (Cons x a)
  show ?case
  proof (cases "n = x")
    case True
    with Cons.prems(1) show ?thesis by (cases x) simp_all
  next
    case False
    with Cons.prems have "n \<in> set a" by simp
    with Cons.IH Cons.prems(1) have "n \<in> fst ` set (descendants_from p a)" for p by blast
    then show ?thesis by (cases x) simp_all
  qed
qed

lemma matching_nodes_empty: "matching_nodes X d = [] \<longleftrightarrow> (\<forall>n \<in> set d. \<not> annotated X n)"
proof
  assume e: "matching_nodes X d = []"
  show "\<forall>n \<in> set d. \<not> annotated X n"
  proof
    fix n assume n: "n \<in> set d"
    show "\<not> annotated X n"
    proof
      assume a: "annotated X n"
      then have "isText n" by (simp add: annotated_def)
      then have "n \<in> fst ` set (descendants d)"
        unfolding descendants_def using n by (rule descendants_from_text)
      then obtain np where "np \<in> set (descendants d)" "fst np = n" by auto
      with a have "np \<in> set (matching_nodes X d)" by (simp add: matching_nodes_def)
      with e show False by simp
    qed
  qed
next
  assume "\<forall>n \<in> set d. \<not> annotated X n"
  then show "matching_nodes X d = []"
    by (simp add: matching_nodes_def descendants_def filter_descendants_none)
qed

lemma descendants_from_annotated_hd:
  "annotated X n \<Longrightarrow>
     descendants_from pos (n # r) = (n, pos) # descendants_from (pos + item_size n) r"
  by (cases n) (simp_all add: annotated_def)

lemma descendants_from_snoc:
  "annotated X n \<Longrightarrow>
     descendants_from pos (r @ [n]) = descendants_from pos r @ [(n, pos + doc_size r)]"
  by (cases n) (simp_all add: annotated_def descendants_from_append)

lemma core_range:
  assumes pre: "\<forall>n \<in> set pre. \<not> annotated X n"
      and post: "\<forall>n \<in> set post. \<not> annotated X n"
      and ne: "core \<noteq> []"
      and h: "annotated X (hd core)" and l: "annotated X (last core)"
  shows "findAnchorRange (Some (pre @ core @ post)) X
           = Some (doc_size pre, doc_size pre + doc_size core)"
proof -
  let ?P = "\<lambda>np. annotated X (fst np)"
  let ?c = "descendants_from (doc_size pre) core"
  have flt: "matching_nodes X (pre @ core @ post) = filter ?P ?c"
    using pre post
    by (simp add: matching_nodes_def descendants_def descendants_from_append
          filter_descendants_none)
  obtain f r where c: "core = f # r" using ne by (cases core) auto
  have f: "annotated X f" using h c by simp
  have "\<exists>m ms. filter ?P ?c = m # ms \<and> snd m = doc_size pre
          \<and> node_end (last (m # ms)) = doc_size pre + doc_size core"
  proof (cases r rule: rev_cases)
    case Nil
    with c f show ?thesis
      by (simp add: descendants_from_annotated_hd node_end_def doc_size_Cons doc_size_def)
  next
    case (snoc r' z)
    have z: "annotated X z" using l c snoc by simp
    have "?c = (f, doc_size pre) # descendants_from (doc_size pre + item_size f) r'
                 @ [(z, doc_size pre + item_size f + doc_size r')]"
      using c snoc f z by (simp add: descendants_from_annotated_hd descendants_from_snoc)
    then show ?thesis using f z c snoc
      by (simp add: node_end_def doc_size_Cons doc_size_append doc_size_def)
  qed
  then show ?thesis
    unfolding findAnchorRange_matching flt by auto
qed

text \<open>
  C5. For every document and anchor identifier the resolver returns the start of the
  first text node that carries a matching annotation and the end of the last one in
  document order, whatever lies between them. So a document with exactly one contiguous
  annotated span gives the bounds of that span, and a document with two such spans gives
  one range from the start of the first to the end of the second, the text between them
  included.
\<close>

theorem findAnchorRange_spans:
  "findAnchorRange (Some d) X =
     (case matching_nodes X d of
        [] \<Rightarrow> None
      | m # ms \<Rightarrow> Some (snd m, node_end (last (m # ms))))
   \<and> (span \<noteq> [] \<and> (\<forall>n \<in> set span. annotated X n)
        \<and> (\<forall>n \<in> set pre \<union> set post. \<not> annotated X n)
      \<longrightarrow> findAnchorRange (Some (pre @ span @ post)) X
            = Some (doc_size pre, doc_size pre + doc_size span))
   \<and> (span1 \<noteq> [] \<and> span2 \<noteq> [] \<and> (\<forall>n \<in> set span1 \<union> set span2. annotated X n)
        \<and> (\<forall>n \<in> set pre \<union> set post. \<not> annotated X n)
      \<longrightarrow> findAnchorRange (Some (pre @ span1 @ between @ span2 @ post)) X
            = Some (doc_size pre,
                    doc_size pre + doc_size span1 + doc_size between + doc_size span2))"
proof (intro conjI impI)
  show "findAnchorRange (Some d) X =
     (case matching_nodes X d of
        [] \<Rightarrow> None
      | m # ms \<Rightarrow> Some (snd m, node_end (last (m # ms))))"
    by (rule findAnchorRange_matching)
next
  assume a: "span \<noteq> [] \<and> (\<forall>n \<in> set span. annotated X n)
    \<and> (\<forall>n \<in> set pre \<union> set post. \<not> annotated X n)"
  then have "annotated X (hd span)" "annotated X (last span)" by simp_all
  with a show "findAnchorRange (Some (pre @ span @ post)) X
      = Some (doc_size pre, doc_size pre + doc_size span)"
    by (intro core_range) auto
next
  assume a: "span1 \<noteq> [] \<and> span2 \<noteq> [] \<and> (\<forall>n \<in> set span1 \<union> set span2. annotated X n)
    \<and> (\<forall>n \<in> set pre \<union> set post. \<not> annotated X n)"
  let ?core = "span1 @ between @ span2"
  have "annotated X (hd ?core)" "annotated X (last ?core)" "?core \<noteq> []"
    using a by (simp_all add: hd_append)
  then have "findAnchorRange (Some (pre @ ?core @ post)) X
      = Some (doc_size pre, doc_size pre + doc_size ?core)"
    using a by (intro core_range) auto
  then show "findAnchorRange (Some (pre @ span1 @ between @ span2 @ post)) X
      = Some (doc_size pre, doc_size pre + doc_size span1 + doc_size between + doc_size span2)"
    by (simp add: doc_size_append)
qed

theorem findAnchorRange_spans_witness:
  "findAnchorRange
     (Some ([OpenNode, TextNode ''abc '' []]
            @ [TextNode ''fo'' [comment_mark ''t1''],
               TextNode ''o'' [\<lparr>mark_type = ''bold'', commentId = None\<rparr>, comment_mark ''t1'']]
            @ [TextNode '' bar'' [], CloseNode])) ''t1'' = Some (5, 8)
   \<and> findAnchorRange
     (Some ([OpenNode]
            @ [TextNode ''ab'' [comment_mark ''t1'']]
            @ [TextNode ''cd'' [], CloseNode, OpenNode]
            @ [TextNode ''ef'' [comment_mark ''t1'']]
            @ [TextNode ''gh'' [], CloseNode])) ''t1'' = Some (1, 9)"
  using findAnchorRange_spans
    [where X = "''t1''"
       and span = "[TextNode ''fo'' [comment_mark ''t1''],
               TextNode ''o'' [\<lparr>mark_type = ''bold'', commentId = None\<rparr>, comment_mark ''t1'']]"
       and pre = "[OpenNode, TextNode ''abc '' []]"
       and post = "[TextNode '' bar'' [], CloseNode]"
       and ?span1.0 = "[]" and ?span2.0 = "[]" and between = "[]" and d = "[]"]
    findAnchorRange_spans
    [where X = "''t1''" and span = "[]" and d = "[]"
       and pre = "[OpenNode]"
       and post = "[TextNode ''gh'' [], CloseNode]"
       and ?span1.0 = "[TextNode ''ab'' [comment_mark ''t1'']]"
       and ?span2.0 = "[TextNode ''ef'' [comment_mark ''t1'']]"
       and between = "[TextNode ''cd'' [], CloseNode, OpenNode]"]
  by (simp add: annotated_def mark_matches_def comment_mark_def doc_size_def)

text \<open>
  C6. When no text node of the document carries an annotation with the identifier (in
  particular when the identifier annotates nothing at all), the resolver returns null,
  and only then; without an editor handle it returns null as well. The function is
  total: no input makes it raise.
\<close>

theorem findAnchorRange_not_found:
  "(findAnchorRange (Some d) X = None \<longleftrightarrow> (\<forall>n \<in> set d. \<not> annotated X n))
   \<and> ((\<forall>n \<in> set d. \<forall>m \<in> set (marks n). \<not> mark_matches X m)
        \<longrightarrow> findAnchorRange (Some d) X = None)
   \<and> findAnchorRange None X = None"
proof (intro conjI impI)
  show iff: "findAnchorRange (Some d) X = None \<longleftrightarrow> (\<forall>n \<in> set d. \<not> annotated X n)"
    unfolding findAnchorRange_matching matching_nodes_empty [symmetric]
    by (simp split: list.splits)
  assume "\<forall>n \<in> set d. \<forall>m \<in> set (marks n). \<not> mark_matches X m"
  then have "\<forall>n \<in> set d. \<not> annotated X n" by (simp add: annotated_def)
  with iff show "findAnchorRange (Some d) X = None" by simp
next
  show "findAnchorRange None X = None" by (simp add: findAnchorRange_def)
qed

theorem findAnchorRange_not_found_witness:
  "findAnchorRange
     (Some [OpenNode, TextNode ''abc '' [], TextNode ''foo'' [comment_mark ''t1''], CloseNode])
     ''t2'' = None
   \<and> findAnchorRange
        (Some [OpenNode, TextNode ''abc '' [], TextNode ''foo'' [comment_mark ''t1''], CloseNode])
        ''t1'' \<noteq> None"
  using findAnchorRange_not_found
    [of "[OpenNode, TextNode ''abc '' [], TextNode ''foo'' [comment_mark ''t1''], CloseNode]" "''t2''"]
    findAnchorRange_not_found
    [of "[OpenNode, TextNode ''abc '' [], TextNode ''foo'' [comment_mark ''t1''], CloseNode]" "''t1''"]
  by (simp add: annotated_def mark_matches_def comment_mark_def)

section \<open>Properties of the patch store\<close>

lemma findIndex_Some:
  "findIndex P xs = Some i \<Longrightarrow> i < length xs \<and> P (xs ! i) \<and> (\<forall>j < i. \<not> P (xs ! j))"
proof (induction xs arbitrary: i)
  case Nil
  then show ?case by simp
next
  case (Cons x xs)
  show ?case
  proof (cases "P x")
    case True
    with Cons.prems show ?thesis by simp
  next
    case False
    with Cons.prems obtain k where k: "findIndex P xs = Some k" "i = Suc k" by auto
    from Cons.IH [OF k(1)] False k(2) show ?thesis
      by (auto simp: nth_Cons split: nat.splits)
  qed
qed

lemma findIndex_None: "findIndex P xs = None \<longleftrightarrow> (\<forall>x \<in> set xs. \<not> P x)"
  by (induction xs) auto

lemma findIndex_Some_ex: "findIndex P xs = Some i \<Longrightarrow> \<exists>x \<in> set xs. P x"
  using findIndex_None [of P xs] by auto

lemma apply_updates_keeps:
  "patch_id (apply_updates now updates p) = patch_id p"
  "patch_documentId (apply_updates now updates p) = patch_documentId p"
  "patch_createdAt (apply_updates now updates p) = patch_createdAt p"
  "patch_updatedAt (apply_updates now updates p) = now"
  by (simp_all add: apply_updates_def)

lemma updatePatch_cases:
  "updatePatch now docId patchId updates ls = (r, ls') \<Longrightarrow>
     (r = None \<and> ls' = ls) \<or>
     (\<exists>m ps i. has_window ls \<and> \<not> getItem_raises ls \<and> \<not> setItem_raises ls
        \<and> patches_key ls = Some (Json m) \<and> m docId = Some ps
        \<and> findIndex (\<lambda>p. patch_id p = patchId) ps = Some i
        \<and> r = Some (apply_updates now updates (ps ! i))
        \<and> ls' = ls\<lparr>patches_key := Some (Json (m(docId \<mapsto> ps[i := apply_updates now updates (ps ! i)])))\<rparr>)"
  by (auto simp: updatePatch_def updatePatch_try_def getItem_patches_def setItem_patches_def
        JSON_parse_def Let_def
      split: sum.splits option.splits stored.splits if_splits)

lemma updatePatch_found:
  "has_window ls \<Longrightarrow> \<not> getItem_raises ls \<Longrightarrow> \<not> setItem_raises ls \<Longrightarrow>
   patches_key ls = Some (Json m) \<Longrightarrow> m docId = Some ps \<Longrightarrow>
   findIndex (\<lambda>p. patch_id p = patchId) ps = Some i \<Longrightarrow>
   updatePatch now docId patchId updates ls =
     (Some (apply_updates now updates (ps ! i)),
      ls\<lparr>patches_key := Some (Json (m(docId \<mapsto> ps[i := apply_updates now updates (ps ! i)])))\<rparr>)"
  by (simp add: updatePatch_def updatePatch_try_def getItem_patches_def setItem_patches_def
        JSON_parse_def Let_def)

lemma updatePatch_missing:
  "patches_key ls = None
     \<or> (\<exists>m. patches_key ls = Some (Json m)
           \<and> (m docId = None \<or> (\<exists>ps. m docId = Some ps \<and> patchId \<notin> patch_id ` set ps)))
   \<Longrightarrow> updatePatch now docId patchId updates ls = (None, ls)"
  by (auto simp: updatePatch_def updatePatch_try_def getItem_patches_def setItem_patches_def
        JSON_parse_def Let_def findIndex_None image_iff
      split: sum.splits option.splits stored.splits if_splits
      dest!: findIndex_Some_ex)

text \<open>
  C10. Whatever \<open>updatePatch\<close> is called with: when it returns a patch, that patch is the
  first one of the document with the identifier, with the updates applied; it keeps its
  identifier, its document and its creation time, and its update time is the clock's. It
  takes the place of the old record in the stored list; the other patches of the document,
  the lists of the other documents and the comment key are left as they were. When it
  returns null the storage is unchanged, and it returns null when the string under the
  key, the document's list or a patch with the identifier does not exist.
\<close>

theorem updatePatch_frame:
  "updatePatch now docId patchId updates ls = (r, ls') \<Longrightarrow>
     (case r of
        None \<Rightarrow> ls' = ls
      | Some q \<Rightarrow>
          (\<exists>m ps i. patches_key ls = Some (Json m) \<and> m docId = Some ps \<and> i < length ps
             \<and> patch_id (ps ! i) = patchId \<and> (\<forall>j < i. patch_id (ps ! j) \<noteq> patchId)
             \<and> q = apply_updates now updates (ps ! i)
             \<and> patch_id q = patch_id (ps ! i)
             \<and> patch_documentId q = patch_documentId (ps ! i)
             \<and> patch_createdAt q = patch_createdAt (ps ! i)
             \<and> patch_updatedAt q = now
             \<and> ls' = ls\<lparr>patches_key := Some (Json (m(docId \<mapsto> ps[i := q])))\<rparr>
             \<and> stored_patches ls' docId = Some (ps[i := q])
             \<and> (\<forall>d. d \<noteq> docId \<longrightarrow> stored_patches ls' d = stored_patches ls d)
             \<and> comments_key ls' = comments_key ls))
   \<and> (patches_key ls = None
        \<or> (\<exists>m. patches_key ls = Some (Json m)
              \<and> (m docId = None \<or> (\<exists>ps. m docId = Some ps \<and> patchId \<notin> patch_id ` set ps)))
      \<longrightarrow> r = None \<and> ls' = ls)"
proof (intro conjI impI)
  assume u: "updatePatch now docId patchId updates ls = (r, ls')"
  show "case r of
        None \<Rightarrow> ls' = ls
      | Some q \<Rightarrow>
          (\<exists>m ps i. patches_key ls = Some (Json m) \<and> m docId = Some ps \<and> i < length ps
             \<and> patch_id (ps ! i) = patchId \<and> (\<forall>j < i. patch_id (ps ! j) \<noteq> patchId)
             \<and> q = apply_updates now updates (ps ! i)
             \<and> patch_id q = patch_id (ps ! i)
             \<and> patch_documentId q = patch_documentId (ps ! i)
             \<and> patch_createdAt q = patch_createdAt (ps ! i)
             \<and> patch_updatedAt q = now
             \<and> ls' = ls\<lparr>patches_key := Some (Json (m(docId \<mapsto> ps[i := q])))\<rparr>
             \<and> stored_patches ls' docId = Some (ps[i := q])
             \<and> (\<forall>d. d \<noteq> docId \<longrightarrow> stored_patches ls' d = stored_patches ls d)
             \<and> comments_key ls' = comments_key ls)"
  proof (cases r)
    case None
    with updatePatch_cases [OF u] show ?thesis by auto
  next
    case (Some q)
    with updatePatch_cases [OF u] obtain m ps i where
      m: "patches_key ls = Some (Json m)" "m docId = Some ps"
      and i: "findIndex (\<lambda>p. patch_id p = patchId) ps = Some i"
      and q: "q = apply_updates now updates (ps ! i)"
      and ls': "ls' = ls\<lparr>patches_key := Some (Json (m(docId \<mapsto> ps[i := q])))\<rparr>"
      by auto
    from findIndex_Some [OF i] have
      "i < length ps" "patch_id (ps ! i) = patchId" "\<forall>j < i. patch_id (ps ! j) \<noteq> patchId"
      by simp_all
    with m q ls' Some show ?thesis
      by (auto simp: apply_updates_keeps stored_patches_def)
  qed
next
  assume u: "updatePatch now docId patchId updates ls = (r, ls')"
    and "patches_key ls = None
        \<or> (\<exists>m. patches_key ls = Some (Json m)
              \<and> (m docId = None \<or> (\<exists>ps. m docId = Some ps \<and> patchId \<notin> patch_id ` set ps)))"
  then have "updatePatch now docId patchId updates ls = (None, ls)"
    by (intro updatePatch_missing)
  with u show "r = None" "ls' = ls" by simp_all
qed

theorem updatePatch_frame_witness:
  "updatePatch 99 ''d1'' ''p2'' (set_status status_accepted)
     (example_storage None
        (Some (Json [''d2'' \<mapsto> [example_patch ''p3'' ''d2'' ''t3'' status_open],
                     ''d1'' \<mapsto> [example_patch ''p1'' ''d1'' ''t1'' status_open,
                                 example_patch ''p2'' ''d1'' ''t2'' status_open]])))
   = (Some ((example_patch ''p2'' ''d1'' ''t2'' status_accepted)\<lparr>patch_updatedAt := 99\<rparr>),
      example_storage None
        (Some (Json [''d2'' \<mapsto> [example_patch ''p3'' ''d2'' ''t3'' status_open],
                     ''d1'' \<mapsto> [example_patch ''p1'' ''d1'' ''t1'' status_open,
                                 (example_patch ''p2'' ''d1'' ''t2'' status_accepted)
                                    \<lparr>patch_updatedAt := 99\<rparr>]])))
   \<and> updatePatch 99 ''d3'' ''p2'' (set_status status_accepted)
     (example_storage None
        (Some (Json [''d1'' \<mapsto> [example_patch ''p1'' ''d1'' ''t1'' status_open]])))
   = (None, example_storage None
        (Some (Json [''d1'' \<mapsto> [example_patch ''p1'' ''d1'' ''t1'' status_open]])))"
proof -
  have e: "updatePatch 99 ''d1'' ''p2'' (set_status status_accepted)
     (example_storage None
        (Some (Json [''d2'' \<mapsto> [example_patch ''p3'' ''d2'' ''t3'' status_open],
                     ''d1'' \<mapsto> [example_patch ''p1'' ''d1'' ''t1'' status_open,
                                 example_patch ''p2'' ''d1'' ''t2'' status_open]])))
   = (Some ((example_patch ''p2'' ''d1'' ''t2'' status_accepted)\<lparr>patch_updatedAt := 99\<rparr>),
      example_storage None
        (Some (Json [''d2'' \<mapsto> [example_patch ''p3'' ''d2'' ''t3'' status_open],
                     ''d1'' \<mapsto> [example_patch ''p1'' ''d1'' ''t1'' status_open,
                                 (example_patch ''p2'' ''d1'' ''t2'' status_accepted)
                                    \<lparr>patch_updatedAt := 99\<rparr>]])))"
    by (simp add: example_storage_def example_patch_def set_status_def apply_updates_def
          updatePatch_def updatePatch_try_def getItem_patches_def setItem_patches_def
          JSON_parse_def Let_def)
  have e2: "updatePatch 99 ''d3'' ''p2'' (set_status status_accepted)
     (example_storage None
        (Some (Json [''d1'' \<mapsto> [example_patch ''p1'' ''d1'' ''t1'' status_open]])))
   = (None, example_storage None
        (Some (Json [''d1'' \<mapsto> [example_patch ''p1'' ''d1'' ''t1'' status_open]])))"
    by (simp add: example_storage_def example_patch_def set_status_def apply_updates_def
          updatePatch_def updatePatch_try_def getItem_patches_def setItem_patches_def
          JSON_parse_def Let_def)
  show ?thesis
    using updatePatch_frame [OF e] updatePatch_frame [OF e2] e e2 by simp
qed



section \<open>Storage failures\<close>

lemmas store_defs =
  getPatches_def getPatches_try_def getOpenPatchByAnchor_def createPatch_def createPatch_try_def
  updatePatch_def updatePatch_try_def deletePatch_def deletePatch_try_def
  getItem_patches_def setItem_patches_def getItem_comments_def setItem_comments_def
  JSON_parse_def readFromStorage_def readFromStorage_try_def writeToStorage_def
  getDocumentComments_def getComment_def createComment_def updateComment_def deleteComment_def
  deleteDocumentComments_def

lemma patch_reads_degrade:
  "patches_unreadable ls \<Longrightarrow> getPatches d ls = [] \<and> getOpenPatchByAnchor d a ls = None"
  by (auto simp: patches_unreadable_def store_defs split: sum.splits option.splits stored.splits)

lemma patch_writes_degrade:
  "patches_unreadable ls \<or> unwritable ls \<Longrightarrow>
     snd (createPatch now newId d a original proposed ls) = ls
     \<and> updatePatch now d pid upd ls = (None, ls)
     \<and> deletePatch d pid ls = ls"
  by (auto simp: patches_unreadable_def unwritable_def store_defs Let_def
      split: sum.splits option.splits stored.splits)

lemma patch_null_caught:
  "patches_key ls = Some Null \<Longrightarrow>
     getPatches d ls = [] \<and> getOpenPatchByAnchor d a ls = None
     \<and> snd (createPatch now newId d a original proposed ls) = ls
     \<and> updatePatch now d pid upd ls = (None, ls)
     \<and> deletePatch d pid ls = ls"
  by (auto simp: store_defs Let_def split: sum.splits option.splits stored.splits)

lemma readFromStorage_null: "readFromStorage ls = None \<longleftrightarrow> comments_null ls"
  by (auto simp: comments_null_def store_defs split: sum.splits option.splits stored.splits)

lemma comment_reads_degrade:
  "comments_unreadable ls \<Longrightarrow>
     readFromStorage ls = Some [] \<and> getDocumentComments d ls = Inr []
     \<and> getComment cid ls = Inr None"
  by (auto simp: comments_unreadable_def store_defs split: sum.splits option.splits stored.splits)

lemma comment_writes_unwritable:
  "unwritable cl \<Longrightarrow> \<not> comments_null cl \<Longrightarrow>
     createComment now newId d body hl cl =
       Inr (\<lparr>comment_id = newId, documentId = d, createdAt = now, updatedAt = now,
              content = body, highlightedText = hl\<rparr>, cl)
     \<and> updateComment now cid body cl = Inr cl"
  "unwritable ls \<Longrightarrow> \<not> comments_null ls \<Longrightarrow>
     deleteComment cid ls = Inr ls \<and> deleteDocumentComments d ls = Inr ls"
  by (auto simp: unwritable_def comments_null_def store_defs Let_def
      split: sum.splits option.splits stored.splits)

lemma comment_writes_unreadable:
  "comments_unreadable cl \<Longrightarrow> \<not> unwritable cl \<Longrightarrow>
     createComment now newId d body hl cl =
       Inr (\<lparr>comment_id = newId, documentId = d, createdAt = now, updatedAt = now,
              content = body, highlightedText = hl\<rparr>,
            cl\<lparr>comments_key := Some (Json [\<lparr>comment_id = newId, documentId = d,
                   createdAt = now, updatedAt = now, content = body, highlightedText = hl\<rparr>])\<rparr>)
     \<and> updateComment now cid body cl = Inr cl"
  "comments_unreadable ls \<Longrightarrow> \<not> unwritable ls \<Longrightarrow>
     deleteComment cid ls = Inr (ls\<lparr>comments_key := Some (Json [])\<rparr>)
     \<and> deleteDocumentComments d ls = Inr (ls\<lparr>comments_key := Some (Json [])\<rparr>)"
  by (auto simp: comments_unreadable_def unwritable_def store_defs Let_def
      split: sum.splits option.splits stored.splits)

lemma comment_store_returns:
  "\<not> comments_null cl \<Longrightarrow>
     (\<exists>r. createComment now newId d body hl cl = Inr r)
     \<and> (\<exists>r. updateComment now cid body cl = Inr r)"
  "\<not> comments_null ls \<Longrightarrow>
     (\<exists>r. getDocumentComments d ls = Inr r) \<and> (\<exists>r. getComment cid ls = Inr r)
     \<and> (\<exists>r. deleteComment cid ls = Inr r) \<and> (\<exists>r. deleteDocumentComments d ls = Inr r)"
  using readFromStorage_null [of cl] readFromStorage_null [of ls]
  by (auto simp: getDocumentComments_def getComment_def createComment_def updateComment_def
        deleteComment_def deleteDocumentComments_def Let_def split: option.splits)

lemma catch_all:
  "getPatches_try d ls = Inl e \<Longrightarrow> getPatches d ls = []"
  "updatePatch_try now d pid upd ls = Inl e \<Longrightarrow> updatePatch now d pid upd ls = (None, ls)"
  "deletePatch_try d pid ls = Inl e \<Longrightarrow> deletePatch d pid ls = ls"
  "readFromStorage_try ls = Inl e \<Longrightarrow> readFromStorage ls = Some []"
  "setItem_comments cs ls = Inl e \<Longrightarrow> writeToStorage cs ls = ls"
  by (simp_all add: getPatches_def updatePatch_def deletePatch_def readFromStorage_def
        writeToStorage_def)

text \<open>
  C9, as amended. The failures of the storage are that it is not there, that reading or
  writing raises, and that the string under the key is not JSON. Every function of the
  patch store has its whole body inside \<open>try\<close>: whatever is raised there, these failures
  and the type error of a stored \<open>null\<close> as well, the function returns its default value
  and the storage is as it was. The comment store catches inside its two helpers: when
  the string cannot be read or is not JSON, the reads return the empty result; its writes
  and deletes change nothing when writing fails; but when only the reading fails, they go
  on from an empty list and write it: \<open>createComment\<close> leaves the new comment alone
  under the key, the deletes leave the empty list, \<open>updateComment\<close> finds nothing to
  change. Whenever the comment value read is not \<open>null\<close>, so under each failure of reading,
  every function of the comment store returns: no exception leaves it.
\<close>

theorem store_failures_caught:
  "(patches_unreadable ls \<longrightarrow> getPatches d ls = [] \<and> getOpenPatchByAnchor d a ls = None)
   \<and> (patches_unreadable ls \<or> unwritable ls \<longrightarrow>
         snd (createPatch now newId d a original proposed ls) = ls
         \<and> updatePatch now d pid upd ls = (None, ls)
         \<and> deletePatch d pid ls = ls)
   \<and> (patches_key ls = Some Null \<longrightarrow>
         getPatches d ls = [] \<and> getOpenPatchByAnchor d a ls = None
         \<and> snd (createPatch now newId d a original proposed ls) = ls
         \<and> updatePatch now d pid upd ls = (None, ls)
         \<and> deletePatch d pid ls = ls)
   \<and> (comments_unreadable ls \<longrightarrow>
         readFromStorage ls = Some [] \<and> getDocumentComments d ls = Inr []
         \<and> getComment cid ls = Inr None)
   \<and> (unwritable ls \<and> \<not> comments_null ls \<longrightarrow>
         deleteComment cid ls = Inr ls \<and> deleteDocumentComments d ls = Inr ls)
   \<and> (unwritable cl \<and> \<not> comments_null cl \<longrightarrow>
         createComment now newId d body hl cl =
           Inr (\<lparr>comment_id = newId, documentId = d, createdAt = now, updatedAt = now,
                  content = body, highlightedText = hl\<rparr>, cl)
         \<and> updateComment now cid body cl = Inr cl)
   \<and> (comments_unreadable ls \<and> \<not> unwritable ls \<longrightarrow>
         deleteComment cid ls = Inr (ls\<lparr>comments_key := Some (Json [])\<rparr>)
         \<and> deleteDocumentComments d ls = Inr (ls\<lparr>comments_key := Some (Json [])\<rparr>))
   \<and> (comments_unreadable cl \<and> \<not> unwritable cl \<longrightarrow>
         createComment now newId d body hl cl =
           Inr (\<lparr>comment_id = newId, documentId = d, createdAt = now, updatedAt = now,
                  content = body, highlightedText = hl\<rparr>,
                cl\<lparr>comments_key := Some (Json [\<lparr>comment_id = newId, documentId = d,
                       createdAt = now, updatedAt = now, content = body,
                       highlightedText = hl\<rparr>])\<rparr>)
         \<and> updateComment now cid body cl = Inr cl)
   \<and> (\<not> comments_null ls \<longrightarrow>
         (\<exists>r. getDocumentComments d ls = Inr r) \<and> (\<exists>r. getComment cid ls = Inr r)
         \<and> (\<exists>r. deleteComment cid ls = Inr r) \<and> (\<exists>r. deleteDocumentComments d ls = Inr r))
   \<and> (\<not> comments_null cl \<longrightarrow>
         (\<exists>r. createComment now newId d body hl cl = Inr r)
         \<and> (\<exists>r. updateComment now cid body cl = Inr r))
   \<and> (getPatches_try d ls = Inl e \<longrightarrow> getPatches d ls = [])
   \<and> (updatePatch_try now d pid upd ls = Inl e \<longrightarrow> updatePatch now d pid upd ls = (None, ls))
   \<and> (deletePatch_try d pid ls = Inl e \<longrightarrow> deletePatch d pid ls = ls)
   \<and> (readFromStorage_try ls = Inl e \<longrightarrow> readFromStorage ls = Some [])
   \<and> (setItem_comments cs ls = Inl e \<longrightarrow> writeToStorage cs ls = ls)"
proof -
  show ?thesis
    using patch_reads_degrade [of ls d a]
      patch_writes_degrade [of ls now newId d a original proposed pid upd]
      patch_null_caught [of ls d a now newId original proposed pid upd]
      comment_reads_degrade [of ls d cid]
      comment_writes_unwritable(1)[of cl now newId d body hl cid]
      comment_writes_unwritable(2)[of ls cid d]
      comment_writes_unreadable(1)[of cl now newId d body hl cid]
      comment_writes_unreadable(2)[of ls cid d]
      comment_store_returns(1)[of cl now newId d body hl cid]
      comment_store_returns(2)[of ls d cid]
      catch_all(1)[of d ls e] catch_all(2)[of now d pid upd ls e] catch_all(3)[of d pid ls e]
      catch_all(4)[of ls e] catch_all(5)[of cs ls e]
    by blast
qed

theorem store_failures_caught_witness:
  "getPatches ''d1'' ((example_storage (Some Corrupt) (Some Corrupt) :: Comment localStorage)) = []
   \<and> updatePatch 5 ''d1'' ''p1'' (set_status status_accepted)
        ((example_storage (Some Corrupt) (Some Corrupt) :: Comment localStorage))
      = (None, (example_storage (Some Corrupt) (Some Corrupt) :: Comment localStorage))
   \<and> getDocumentComments ''d1''
        ((example_storage (Some Corrupt) (Some Corrupt) :: Comment localStorage)) = Inr []
   \<and> deleteComment ''c1'' ((example_storage (Some Corrupt) (Some Corrupt) :: Comment localStorage))
      = Inr (example_storage (Some (Json [])) (Some Corrupt) :: Comment localStorage)
   \<and> deleteComment ''c1'' (unavailable_storage (Some (Json [])) None :: Comment localStorage)
      = Inr (unavailable_storage (Some (Json [])) None)
   \<and> updateComment 5 ''c1'' ''hi'' (unavailable_storage (Some (Json [])) None)
      = Inr (unavailable_storage (Some (Json [])) None)
   \<and> getPatches ''d1'' ((example_storage None (Some Null) :: Comment localStorage)) = []
   \<and> deletePatch ''d1'' ''p1'' ((example_storage None (Some Null) :: Comment localStorage))
      = example_storage None (Some Null)"
  using store_failures_caught
    [where ls = "(example_storage (Some Corrupt) (Some Corrupt) :: Comment localStorage)"
       and cl = "unavailable_storage (Some (Json [])) None"
       and d = "''d1''" and pid = "''p1''" and now = 5 and upd = "set_status status_accepted"
       and cid = "''c1''" and newId = "''c1''" and body = "''hi''" and hl = "''foo''"
       and a = "''t1''" and original = "''foo''" and proposed = "''baz''"
       and e = SyntaxError and cs = "[]"]
    store_failures_caught
    [where ls = "unavailable_storage (Some (Json [])) None :: Comment localStorage" and cid = "''c1''"
       and cl = "unavailable_storage (Some (Json [])) None"
       and d = "''d1''" and pid = "''p1''" and now = 5 and upd = "set_status status_accepted"
       and newId = "''c1''" and body = "''hi''" and hl = "''foo''"
       and a = "''t1''" and original = "''foo''" and proposed = "''baz''"
       and e = SyntaxError and cs = "[]"]
    store_failures_caught
    [where ls = "example_storage None (Some Null) :: Comment localStorage" and cid = "''c1''"
       and cl = "unavailable_storage (Some (Json [])) None"
       and d = "''d1''" and pid = "''p1''" and now = 5 and upd = "set_status status_accepted"
       and newId = "''c1''" and body = "''hi''" and hl = "''foo''"
       and a = "''t1''" and original = "''foo''" and proposed = "''baz''"
       and e = SyntaxError and cs = "[]"]
  by (simp add: patches_unreadable_def comments_unreadable_def unwritable_def comments_null_def
        example_storage_def unavailable_storage_def)

text \<open>
  C9 as stated fails twice. With a string under the comment key that is not JSON, a delete
  and a create of the comment store are not without effect: they replace the stored
  string. And with the JSON text \<open>null\<close> under the comment key, which parses, a read of the
  comment store raises a type error that leaves the function.
\<close>

theorem comment_writes_not_noop_counterexample:
  "deleteComment ''c1'' (example_storage (Some Corrupt) None)
     \<noteq> Inr (example_storage (Some Corrupt) None)
   \<and> deleteComment ''c1'' (example_storage (Some Corrupt) None)
     = Inr (example_storage (Some (Json [])) None)
   \<and> map_sum id (\<lambda>r. comments_key (snd r))
       (createComment 5 ''c1'' ''d1'' ''hi'' ''foo'' (example_storage (Some Corrupt) None))
      = Inr (Some (Json [\<lparr>comment_id = ''c1'', documentId = ''d1'', createdAt = 5, updatedAt = 5,
                           content = ''hi'', highlightedText = ''foo''\<rparr>]))
   \<and> getDocumentComments ''d1'' (example_storage (Some Null) None) = Inl TypeError
   \<and> deleteComment ''c1'' (example_storage (Some Null) None) = Inl TypeError"
  by (simp add: example_storage_def store_defs Let_def)


section \<open>Properties of the edits\<close>

lemma tokens_Nil: "tokens [] = []"
  by (simp add: tokens_def)

lemma tokens_Cons: "tokens (x # d) = tokens_of_item x @ tokens d"
  by (simp add: tokens_def)

lemma tokens_append: "tokens (a @ b) = tokens a @ tokens b"
  by (simp add: tokens_def)

lemma length_tokens_of_item: "length (tokens_of_item x) = item_size x"
  by (cases x) simp_all

lemma length_tokens: "length (tokens d) = doc_size d"
  by (induction d) (simp_all add: tokens_def doc_size_def length_tokens_of_item)

lemma tokens_cut_before: "tokens (cut_before n d) = take n (tokens d)"
proof (induction d arbitrary: n)
  case Nil
  then show ?case by (simp add: tokens_def)
next
  case (Cons x d)
  show ?case
  proof (cases "n = 0")
    case True
    then show ?thesis by (simp add: tokens_def)
  next
    case False
    show ?thesis
    proof (cases "item_size x \<le> n")
      case True
      with False Cons show ?thesis
        by (simp add: tokens_Cons length_tokens_of_item)
    next
      case gt: False
      with False show ?thesis
        by (cases x) (simp_all add: tokens_Cons take_map tokens_def)
    qed
  qed
qed

lemma tokens_cut_after: "tokens (cut_after n d) = drop n (tokens d)"
proof (induction d arbitrary: n)
  case Nil
  then show ?case by (simp add: tokens_def)
next
  case (Cons x d)
  show ?case
  proof (cases "n = 0")
    case True
    then show ?thesis by simp
  next
    case False
    show ?thesis
    proof (cases "item_size x \<le> n")
      case True
      with False Cons show ?thesis
        by (simp add: tokens_Cons length_tokens_of_item)
    next
      case gt: False
      with False show ?thesis
        by (cases x) (simp_all add: tokens_Cons drop_map)
    qed
  qed
qed

lemma tokens_strip: "tokens (map strip_comment d) = map strip_token (tokens d)"
proof (induction d)
  case Nil
  then show ?case by (simp add: tokens_def)
next
  case (Cons x d)
  then show ?case by (cases x) (simp_all add: tokens_Cons)
qed

lemma marks_at_tokens:
  "marks_at n d = (if n < length (tokens d) then token_marks (tokens d ! n) else [])"
proof (induction d arbitrary: n)
  case Nil
  then show ?case by (simp add: tokens_def)
next
  case (Cons x d)
  show ?case
  proof (cases "n < item_size x")
    case True
    then show ?thesis by (cases x) (simp_all add: tokens_Cons nth_append)
  next
    case False
    with Cons show ?thesis
      by (auto simp: tokens_Cons nth_append length_tokens_of_item)
  qed
qed


lemma tokens_insertContent:
  assumes "plain_text s" "text_range (a, b) d"
  shows "insertContent lib s (d, (a, b)) =
           (cut_before a d @ [TextNode s (marksAcross lib a b d)] @ cut_after b d,
            (a + length s, a + length s))"
    and "tokens (fst (insertContent lib s (d, (a, b)))) =
           take a (tokens d) @ map (\<lambda>c. CharTok c (marksAcross lib a b d)) s @ drop b (tokens d)"
  using assms
  by (simp_all add: insertContent_def tokens_append tokens_cut_before tokens_cut_after
        tokens_Nil tokens_Cons)

lemma tokens_unsetComment:
  assumes "a \<le> b"
  shows "tokens (fst (unsetComment (d, (a, b)))) =
     take a (tokens d) @ map strip_token (take (b - a) (drop a (tokens d))) @ drop b (tokens d)"
proof (cases "a < b")
  case True
  then show ?thesis
    by (simp add: unsetComment_def cut_between_def tokens_append tokens_cut_before
          tokens_cut_after tokens_strip)
next
  case False
  with assms have "a = b" by simp
  then show ?thesis by (simp add: unsetComment_def)
qed

lemma accept_transaction_plain:
  assumes "plain_text s" "text_range (a, b) d"
  shows "accept_transaction lib (a, b) s d =
           cut_before a d @ [TextNode s (marksAcross lib a b d)] @ cut_after b d"
  using tokens_insertContent(1) [OF assms, of lib]
  by (simp add: accept_transaction_def setTextSelection_def unsetComment_def Let_def)


lemma tokens_reject_transaction:
  assumes "a \<le> b"
  shows "tokens (reject_transaction (a, b) d) =
     take a (tokens d) @ map strip_token (take (b - a) (drop a (tokens d))) @ drop b (tokens d)"
  using tokens_unsetComment [OF assms, of d]
  by (simp add: reject_transaction_def setTextSelection_def)



lemma indexOf_empty: "indexOf s [] = Some 0"
  by (cases s) simp_all



lemma descendants_from_bounds:
  "(n, p) \<in> set (descendants_from pos d) \<Longrightarrow> pos \<le> p \<and> p + item_size n \<le> pos + doc_size d"
proof (induction d arbitrary: pos)
  case Nil
  then show ?case by simp
next
  case (Cons x d)
  show ?case
  proof (cases "(n, p) = (x, pos) \<and> x \<noteq> CloseNode")
    case True
    then show ?thesis by (simp add: doc_size_Cons)
  next
    case False
    with Cons.prems have "(n, p) \<in> set (descendants_from (pos + item_size x) d)"
      by (cases x) auto
    from Cons.IH [OF this] show ?thesis by (simp add: doc_size_Cons)
  qed
qed

lemma descendants_from_sorted: "sorted (map snd (descendants_from pos d))"
proof (induction d arbitrary: pos)
  case Nil
  then show ?case by simp
next
  case (Cons x d)
  have "pos \<le> p" if "(n, p) \<in> set (descendants_from (pos + item_size x) d)" for n p
    using descendants_from_bounds [OF that] by simp
  with Cons [of "pos + item_size x"] show ?case
    by (cases x) auto
qed

lemma findAnchorRange_bounds:
  assumes "findAnchorRange (Some d) X = Some (a, b)"
  shows "a \<le> b \<and> b \<le> doc_size d"
proof -
  from assms obtain m ms where
    mm: "matching_nodes X d = m # ms" and a: "a = snd m" and b: "b = node_end (last (m # ms))"
    by (auto simp: findAnchorRange_matching split: list.splits)
  have s: "sorted (map snd (matching_nodes X d))"
    unfolding matching_nodes_def descendants_def
    by (rule sorted_filter) (rule descendants_from_sorted)
  have "last (m # ms) \<in> set (matching_nodes X d)" using mm by (metis last_in_set list.discI)
  then have l: "last (m # ms) \<in> set (descendants_from 0 d)"
    by (simp add: matching_nodes_def descendants_def)
  have "snd m \<le> snd (last (m # ms))"
    using s mm by (cases ms) (auto simp: sorted_wrt_append)
  moreover have "node_end (last (m # ms)) \<le> doc_size d"
    using descendants_from_bounds [of "fst (last (m # ms))" "snd (last (m # ms))" 0 d] l
    by (simp add: node_end_def)
  ultimately show ?thesis using a b by (simp add: node_end_def)
qed

lemma accept_range_eq:
  "accept_range doc threadId patch =
     (case findAnchorRange (Some doc) threadId of
        Some rng \<Rightarrow> Some rng
      | None \<Rightarrow>
          (case indexOf (getText doc) (searchText patch) of
             Some index \<Rightarrow> Some (index + 1, index + 1 + length (searchText patch))
           | None \<Rightarrow> None))"
  by (simp add: accept_range_def accept_lookup_def Let_def split: option.splits)

lemma accept_range_ordered:
  "accept_range d t p = Some (a, b) \<Longrightarrow> a \<le> b"
  by (auto simp: accept_range_eq split: option.splits dest: findAnchorRange_bounds)


section \<open>Accepting a patch\<close>

lemma editor_loads [simp]:
  "editor (loadPatches d st) = editor st" "editor (loadThreads d st) = editor st"
  "alerts (loadPatches d st) = alerts st" "alerts (loadThreads d st) = alerts st"
  "storage (loadPatches d st) = storage st" "storage (loadThreads d st) = storage st"
  "library (loadPatches d st) = library st" "library (loadThreads d st) = library st"
  "patches (loadThreads d st) = patches st"
  "commentData (loadPatches d st) = commentData st"
  "commentData (loadThreads d st) = commentData st"
  "onDeleteComment_calls (loadPatches d st) = onDeleteComment_calls st"
  "onDeleteComment_calls (loadThreads d st) = onDeleteComment_calls st"
  by (simp_all add: loadPatches_def loadThreads_def split: sum.splits)

lemma handleAcceptPatch_editor:
  "editor (handleAcceptPatch now docId threadId patch st) =
     (case editor st of
        None \<Rightarrow> None
      | Some doc \<Rightarrow>
          (case accept_range doc threadId patch of
             None \<Rightarrow> Some doc
           | Some r \<Rightarrow> Some (accept_transaction (library st) r (proposedText patch) doc)))"
  by (simp add: handleAcceptPatch_def Let_def split: option.splits)

text \<open>
  C7. When the editor is there and neither the mark nor the search for the (trimmed)
  original text gives a range, the accept handler changes nothing but the alerts: the
  document, the storage with the patch store and the comment store (so the patch stays as
  it was, open if it was open) and the state of the panel are as before, and the message
  that the text could not be found has been shown.
\<close>

theorem accept_not_found:
  "editor st = Some doc \<and> findAnchorRange (Some doc) threadId = None
     \<and> indexOf (getText doc) (searchText patch) = None
   \<longrightarrow> handleAcceptPatch now docId threadId patch st
         = st\<lparr>alerts := alerts st @ [not_found_message]\<rparr>
       \<and> editor (handleAcceptPatch now docId threadId patch st) = Some doc
       \<and> storage (handleAcceptPatch now docId threadId patch st) = storage st
       \<and> threads (handleAcceptPatch now docId threadId patch st) = threads st
       \<and> patches (handleAcceptPatch now docId threadId patch st) = patches st
       \<and> alerts (handleAcceptPatch now docId threadId patch st) = alerts st @ [not_found_message]"
  by (simp add: handleAcceptPatch_def accept_range_eq)

theorem accept_not_found_witness:
  "handleAcceptPatch 5 ''d1'' ''t1'' (example_patch ''p1'' ''d1'' ''t1'' status_open)
     (example_panel [OpenNode, TextNode ''abc bar'' [], CloseNode]
        (example_storage None
           (Some (Json [''d1'' \<mapsto> [example_patch ''p1'' ''d1'' ''t1'' status_open]]))))
   = (example_panel [OpenNode, TextNode ''abc bar'' [], CloseNode]
        (example_storage None
           (Some (Json [''d1'' \<mapsto> [example_patch ''p1'' ''d1'' ''t1'' status_open]]))))
     \<lparr>alerts := [not_found_message]\<rparr>"
proof -
  have f: "findAnchorRange (Some [OpenNode, TextNode ''abc bar'' [], CloseNode]) ''t1'' = None"
    by (simp add: findAnchorRange_def descendants_def visit_def)
  have g: "getText [OpenNode, TextNode ''abc bar'' [], CloseNode] = ''abc bar''"
    by (simp add: getText_def)
  have t: "searchText (example_patch ''p1'' ''d1'' ''t1'' status_open) = ''foo''"
    by (simp add: searchText_def example_patch_def trim_def is_white_space_def)
  have i: "indexOf ''abc bar'' ''foo'' = None" by simp
  show ?thesis
    using accept_not_found
      [of "example_panel [OpenNode, TextNode ''abc bar'' [], CloseNode]
        (example_storage None
           (Some (Json [''d1'' \<mapsto> [example_patch ''p1'' ''d1'' ''t1'' status_open]])))"
        "[OpenNode, TextNode ''abc bar'' [], CloseNode]" "''t1''"
        "example_patch ''p1'' ''d1'' ''t1'' status_open" 5 "''d1''"] f g t i
    by (simp add: example_panel_def)
qed

lemma example_accept_range:
  "originalText patch = ''foo'' \<Longrightarrow>
     accept_range [OpenNode, TextNode ''abc foo bar'' [], CloseNode] threadId patch = Some (5, 8)"
  by (simp add: accept_range_eq searchText_def findAnchorRange_def descendants_def visit_def
        getText_def trim_def is_white_space_def)

lemma example_text_range:
  "text_range (5, 8) [OpenNode, TextNode ''abc foo bar'' [], CloseNode]"
  by (simp add: text_range_def cut_between_def doc_size_def)

lemma example_accept_doc:
  "plain_text s \<Longrightarrow>
     accept_transaction lib (5, 8) s [OpenNode, TextNode ''abc foo bar'' [], CloseNode]
       = [OpenNode, TextNode ''abc '' [], TextNode s [], TextNode '' bar'' [], CloseNode]"
  by (simp add: accept_transaction_plain example_text_range marksAcross_def)





section \<open>The effects of accepting\<close>

lemma toggleResolveThread_found:
  "has_window ls \<Longrightarrow> \<not> getItem_raises ls \<Longrightarrow> \<not> setItem_raises ls \<Longrightarrow>
   comments_key ls = Some (Json ts) \<Longrightarrow> findIndex (\<lambda>t. comment_id t = threadId) ts = Some k \<Longrightarrow>
   toggleResolveThread threadId ls =
     ls\<lparr>comments_key := Some (Json (ts[k := (ts ! k)\<lparr>resolved := \<not> resolved (ts ! k)\<rparr>]))\<rparr>"
  by (simp add: toggleResolveThread_def readFromStorage_def readFromStorage_try_def
        writeToStorage_def getItem_comments_def setItem_comments_def JSON_parse_def Let_def)

lemma toggleResolveThread_patches:
  "patches_key (toggleResolveThread threadId ls) = patches_key ls"
  "has_window (toggleResolveThread threadId ls) = has_window ls"
  "getItem_raises (toggleResolveThread threadId ls) = getItem_raises ls"
  "setItem_raises (toggleResolveThread threadId ls) = setItem_raises ls"
  by (simp_all add: toggleResolveThread_def writeToStorage_def setItem_comments_def Let_def
        split: option.splits sum.splits)

lemma apply_set_status:
  "apply_updates now (set_status v) p = p\<lparr>status := v, patch_updatedAt := now\<rparr>"
  by (simp add: apply_updates_def set_status_def)

lemma handleAcceptPatch_effects:
  assumes e: "editor st = Some doc"
      and r: "accept_range doc threadId patch = Some rng"
      and ok: "has_window (storage st)" "\<not> getItem_raises (storage st)"
              "\<not> setItem_raises (storage st)"
      and pk: "patches_key (storage st) = Some (Json m)" "m docId = Some ps"
              "findIndex (\<lambda>p. patch_id p = patch_id patch) ps = Some i"
      and ck: "comments_key (storage st) = Some (Json ts)"
              "findIndex (\<lambda>t. comment_id t = threadId) ts = Some k"
  shows "editor (handleAcceptPatch now docId threadId patch st)
           = Some (accept_transaction (library st) rng (proposedText patch) doc)
         \<and> patches_key (storage (handleAcceptPatch now docId threadId patch st))
           = Some (Json (m(docId \<mapsto> ps[i := (ps ! i)\<lparr>status := status_accepted,
                                                      patch_updatedAt := now\<rparr>])))
         \<and> comments_key (storage (handleAcceptPatch now docId threadId patch st))
           = Some (Json (ts[k := (ts ! k)\<lparr>resolved := \<not> resolved (ts ! k)\<rparr>]))
         \<and> alerts (handleAcceptPatch now docId threadId patch st) = alerts st"
proof -
  let ?ls1 = "(storage st)\<lparr>patches_key := Some (Json (m(docId \<mapsto>
      ps[i := (ps ! i)\<lparr>status := status_accepted, patch_updatedAt := now\<rparr>])))\<rparr>"
  have u: "updatePatch now docId (patch_id patch) (set_status status_accepted) (storage st)
      = (Some ((ps ! i)\<lparr>status := status_accepted, patch_updatedAt := now\<rparr>), ?ls1)"
    using updatePatch_found [OF ok pk, of now "set_status status_accepted"]
    by (simp add: apply_set_status)
  have t: "toggleResolveThread threadId ?ls1
      = ?ls1\<lparr>comments_key := Some (Json (ts[k := (ts ! k)\<lparr>resolved := \<not> resolved (ts ! k)\<rparr>]))\<rparr>"
    using ok ck by (intro toggleResolveThread_found) simp_all
  show ?thesis
    using e r u t by (simp add: handleAcceptPatch_def Let_def)
qed

text \<open>
  C1, at a failing input: the thread \<open>t1\<close> has been resolved by hand while its patch is
  still open. Accepting the patch replaces the text and stores the patch as accepted, and
  the call of \<open>toggleResolveThread\<close> leaves the thread unresolved.
\<close>

theorem accept_reopens_resolved_thread:
  "editor (handleAcceptPatch 5 ''d1'' ''t1'' (example_patch ''p1'' ''d1'' ''t1'' status_open)
     (example_panel [OpenNode, TextNode ''abc foo bar'' [], CloseNode]
        (example_storage (Some (Json [example_thread ''t1'' ''d1'' True True]))
           (Some (Json [''d1'' \<mapsto> [example_patch ''p1'' ''d1'' ''t1'' status_open]])))))
     = Some [OpenNode, TextNode ''abc '' [], TextNode ''baz'' [], TextNode '' bar'' [], CloseNode]
   \<and> patches_key (storage
       (handleAcceptPatch 5 ''d1'' ''t1'' (example_patch ''p1'' ''d1'' ''t1'' status_open)
     (example_panel [OpenNode, TextNode ''abc foo bar'' [], CloseNode]
        (example_storage (Some (Json [example_thread ''t1'' ''d1'' True True]))
           (Some (Json [''d1'' \<mapsto> [example_patch ''p1'' ''d1'' ''t1'' status_open]]))))))
     = Some (Json [''d1'' \<mapsto> [(example_patch ''p1'' ''d1'' ''t1'' status_accepted)
                                   \<lparr>patch_updatedAt := 5\<rparr>]])
   \<and> comments_key (storage
       (handleAcceptPatch 5 ''d1'' ''t1'' (example_patch ''p1'' ''d1'' ''t1'' status_open)
     (example_panel [OpenNode, TextNode ''abc foo bar'' [], CloseNode]
        (example_storage (Some (Json [example_thread ''t1'' ''d1'' True True]))
           (Some (Json [''d1'' \<mapsto> [example_patch ''p1'' ''d1'' ''t1'' status_open]]))))))
     = Some (Json [example_thread ''t1'' ''d1'' False True])"
proof -
  let ?p = "example_patch ''p1'' ''d1'' ''t1'' status_open"
  let ?doc = "[OpenNode, TextNode ''abc foo bar'' [], CloseNode]"
  let ?ls = "example_storage (Some (Json [example_thread ''t1'' ''d1'' True True]))
           (Some (Json [''d1'' \<mapsto> [?p]]))"
  have r: "accept_range ?doc ''t1'' ?p = Some (5, 8)"
    by (simp add: example_accept_range example_patch_def)
  have "editor (handleAcceptPatch 5 ''d1'' ''t1'' ?p (example_panel ?doc ?ls))
           = Some (accept_transaction (library (example_panel ?doc ?ls)) (5, 8)
                     (proposedText ?p) ?doc)
         \<and> patches_key (storage (handleAcceptPatch 5 ''d1'' ''t1'' ?p (example_panel ?doc ?ls)))
           = Some (Json ([''d1'' \<mapsto> [?p]](''d1'' \<mapsto> [?p][0 := ([?p] ! 0)\<lparr>status := status_accepted,
                                                      patch_updatedAt := 5\<rparr>])))
         \<and> comments_key (storage (handleAcceptPatch 5 ''d1'' ''t1'' ?p (example_panel ?doc ?ls)))
           = Some (Json ([example_thread ''t1'' ''d1'' True True]
                [0 := ([example_thread ''t1'' ''d1'' True True] ! 0)
                   \<lparr>resolved := \<not> resolved ([example_thread ''t1'' ''d1'' True True] ! 0)\<rparr>]))
         \<and> alerts (handleAcceptPatch 5 ''d1'' ''t1'' ?p (example_panel ?doc ?ls))
           = alerts (example_panel ?doc ?ls)"
    by (rule handleAcceptPatch_effects [OF _ r])
       (simp_all add: example_panel_def example_storage_def example_patch_def example_thread_def)
  moreover have "plain_text ''baz''" by (simp add: plain_text_def)
  ultimately show ?thesis
    by (simp add: example_patch_def example_thread_def example_accept_doc)
qed

section \<open>Rejecting a patch\<close>

lemma tokens_text_chars:
  "tokens_text pos (map (\<lambda>c. CharTok c ms) s @ rest) = s @ tokens_text (pos + length s) rest"
  by (induction s arbitrary: pos) simp_all

lemma getText_from_tokens: "getText_from pos d = tokens_text pos (tokens d)"
proof (induction d arbitrary: pos)
  case Nil
  then show ?case by (simp add: tokens_Nil)
next
  case (Cons x d)
  then show ?case by (cases x) (simp_all add: tokens_Cons tokens_text_chars)
qed

lemma tokens_text_unmarked: "tokens_text pos (map unmarked ts) = tokens_text pos ts"
proof (induction ts arbitrary: pos)
  case Nil
  then show ?case by simp
next
  case (Cons t ts)
  then show ?case by (cases t) simp_all
qed

lemma getText_unmarked:
  "map unmarked (tokens d') = map unmarked (tokens d) \<Longrightarrow> getText d' = getText d"
  by (metis getText_def getText_from_tokens tokens_text_unmarked)

lemma unmarked_strip_token: "unmarked (strip_token t) = unmarked t"
  by (cases t) simp_all

lemma reject_unmarked:
  assumes "a \<le> b"
  shows "map unmarked (tokens (reject_transaction (a, b) d)) = map unmarked (tokens d)"
proof -
  have "take a (tokens d) @ take (b - a) (drop a (tokens d)) @ drop b (tokens d) = tokens d"
    using assms
    by (metis append_assoc append_take_drop_id le_add_diff_inverse take_add)
  then have "map unmarked (take a (tokens d) @ take (b - a) (drop a (tokens d)) @ drop b (tokens d))
      = map unmarked (tokens d)" by simp
  then show ?thesis
    by (simp add: tokens_reject_transaction [OF assms] comp_def unmarked_strip_token)
qed

lemma handleRejectPatch_editor:
  "editor (handleRejectPatch now docId threadId patch st) =
     (case editor st of
        None \<Rightarrow> None
      | Some doc \<Rightarrow>
          (case findAnchorRange (Some doc) threadId of
             None \<Rightarrow> Some doc
           | Some r \<Rightarrow> Some (reject_transaction r doc)))"
  by (simp add: handleRejectPatch_def Let_def split: option.splits)

lemma handleRejectPatch_storage:
  "storage (handleRejectPatch now docId threadId patch st) =
     (case editor st of
        None \<Rightarrow> storage st
      | Some doc \<Rightarrow>
          toggleResolveThread threadId
            (snd (updatePatch now docId (patch_id patch) (set_status status_rejected)
                    (storage st))))"
  by (simp add: handleRejectPatch_def Let_def split: option.splits)

lemma handleRejectPatch_frame:
  "alerts (handleRejectPatch now docId threadId patch st) = alerts st"
  "commentData (handleRejectPatch now docId threadId patch st) = commentData st"
  "onDeleteComment_calls (handleRejectPatch now docId threadId patch st)
     = onDeleteComment_calls st"
  "library (handleRejectPatch now docId threadId patch st) = library st"
  by (simp_all add: handleRejectPatch_def Let_def split: option.splits)

lemma handleRejectPatch_patches:
  "editor st = Some doc \<Longrightarrow>
     patches (handleRejectPatch now docId threadId patch st)
       = patch_map (getPatches docId (storage (handleRejectPatch now docId threadId patch st)))"
  by (simp add: handleRejectPatch_def Let_def loadPatches_def split: option.splits)

lemma toggleResolveThread_cases:
  "toggleResolveThread t ls = ls
   \<or> (\<exists>ts k. comments_key ls = Some (Json ts) \<and> k < length ts \<and> comment_id (ts ! k) = t
         \<and> toggleResolveThread t ls
           = ls\<lparr>comments_key := Some (Json (ts[k := (ts ! k)\<lparr>resolved := \<not> resolved (ts ! k)\<rparr>]))\<rparr>)"
proof (cases "has_window ls \<and> \<not> getItem_raises ls \<and> \<not> setItem_raises ls
    \<and> (\<exists>ts. comments_key ls = Some (Json ts))")
  case True
  then obtain ts where ts: "comments_key ls = Some (Json ts)" by auto
  with True have r: "readFromStorage ls = Some ts"
    by (simp add: readFromStorage_def readFromStorage_try_def getItem_comments_def JSON_parse_def)
  show ?thesis
  proof (cases "findIndex (\<lambda>x. comment_id x = t) ts")
    case None
    with r show ?thesis by (simp add: toggleResolveThread_def)
  next
    case (Some k)
    from findIndex_Some [OF Some] have "k < length ts" "comment_id (ts ! k) = t" by simp_all
    moreover have "toggleResolveThread t ls
        = ls\<lparr>comments_key := Some (Json (ts[k := (ts ! k)\<lparr>resolved := \<not> resolved (ts ! k)\<rparr>]))\<rparr>"
      using True r Some
      by (simp add: toggleResolveThread_def writeToStorage_def setItem_comments_def)
    ultimately show ?thesis using ts by blast
  qed
next
  case False
  then have "toggleResolveThread t ls = ls"
    by (auto simp: toggleResolveThread_def readFromStorage_def readFromStorage_try_def
          writeToStorage_def getItem_comments_def setItem_comments_def JSON_parse_def
        split: option.splits sum.splits stored.splits)
  then show ?thesis ..
qed

lemma reject_storage_frame:
  "\<exists>P C. toggleResolveThread threadId
            (snd (updatePatch now docId pid (set_status status_rejected) ls))
          = ls\<lparr>patches_key := P, comments_key := C\<rparr>
     \<and> (P = patches_key ls
        \<or> (\<exists>m ps i. patches_key ls = Some (Json m) \<and> m docId = Some ps \<and> i < length ps
              \<and> patch_id (ps ! i) = pid
              \<and> P = Some (Json (m(docId \<mapsto>
                      ps[i := (ps ! i)\<lparr>status := status_rejected, patch_updatedAt := now\<rparr>])))))
     \<and> (C = comments_key ls
        \<or> (\<exists>ts k v. comments_key ls = Some (Json ts) \<and> k < length ts
              \<and> comment_id (ts ! k) = threadId
              \<and> C = Some (Json (ts[k := (ts ! k)\<lparr>resolved := v\<rparr>]))))"
proof -
  obtain r ls1 where u: "updatePatch now docId pid (set_status status_rejected) ls = (r, ls1)"
    by (cases "updatePatch now docId pid (set_status status_rejected) ls")
  let ?Pc = "\<lambda>P. P = patches_key ls
        \<or> (\<exists>m ps i. patches_key ls = Some (Json m) \<and> m docId = Some ps \<and> i < length ps
              \<and> patch_id (ps ! i) = pid
              \<and> P = Some (Json (m(docId \<mapsto>
                      ps[i := (ps ! i)\<lparr>status := status_rejected, patch_updatedAt := now\<rparr>]))))"
  have 1: "ls1 = ls\<lparr>patches_key := patches_key ls1\<rparr> \<and> ?Pc (patches_key ls1)"
  proof -
    from updatePatch_cases [OF u] consider "ls1 = ls"
      | m ps i where "patches_key ls = Some (Json m)" "m docId = Some ps"
          "findIndex (\<lambda>p. patch_id p = pid) ps = Some i"
          "ls1 = ls\<lparr>patches_key := Some (Json (m(docId \<mapsto>
                    ps[i := apply_updates now (set_status status_rejected) (ps ! i)])))\<rparr>"
      by blast
    then show ?thesis
    proof cases
      case 1
      then show ?thesis by simp
    next
      case 2
      from findIndex_Some [OF 2(3)] have "i < length ps" "patch_id (ps ! i) = pid" by simp_all
      with 2 show ?thesis by (auto simp: apply_set_status)
    qed
  qed
  let ?Cc = "\<lambda>C. C = comments_key ls
        \<or> (\<exists>ts k v. comments_key ls = Some (Json ts) \<and> k < length ts
              \<and> comment_id (ts ! k) = threadId
              \<and> C = Some (Json (ts[k := (ts ! k)\<lparr>resolved := v\<rparr>])))"
  have c1: "comments_key ls1 = comments_key ls" using 1 by (metis localStorage.select_convs(4)
        localStorage.surjective localStorage.update_convs(5))
  have 2: "toggleResolveThread threadId ls1
             = ls1\<lparr>comments_key := comments_key (toggleResolveThread threadId ls1)\<rparr>
           \<and> ?Cc (comments_key (toggleResolveThread threadId ls1))"
  proof -
    from toggleResolveThread_cases [of threadId ls1] consider
        "toggleResolveThread threadId ls1 = ls1"
      | ts k where "comments_key ls1 = Some (Json ts)" "k < length ts"
          "comment_id (ts ! k) = threadId"
          "toggleResolveThread threadId ls1
             = ls1\<lparr>comments_key := Some (Json (ts[k := (ts ! k)\<lparr>resolved := \<not> resolved (ts ! k)\<rparr>]))\<rparr>"
      by blast
    then show ?thesis
    proof cases
      case 1
      then show ?thesis using c1 by simp
    next
      case 2
      then show ?thesis using c1 by auto
    qed
  qed
  have "toggleResolveThread threadId ls1
      = ls\<lparr>patches_key := patches_key ls1,
            comments_key := comments_key (toggleResolveThread threadId ls1)\<rparr>"
    using 1 2 by (metis localStorage.update_convs(4))
  with 1 2 u show ?thesis
    by (intro exI [of _ "patches_key ls1"]
          exI [of _ "comments_key (toggleResolveThread threadId ls1)"]) simp
qed

text \<open>
  C4, as amended. Rejecting a patch never changes the text of the document: without an
  editor nothing happens at all; when the anchor does not resolve the document is
  untouched; when it resolves, the comment marks are taken off the positions of the range
  and every position keeps its character or node, so the plain text is the same. In the
  storage nothing changes but, at most, one stored patch of the document with the
  identifier of the patch, which gets the status \<open>rejected\<close> and the update time of the
  clock, and the resolved flag of one stored thread with the identifier of the thread;
  with the editor there, a working storage and the patch stored for the document, the
  status is set. The panel shows the patches as they are stored then; no alert is raised,
  and the comment data and the calls of \<open>onDeleteComment\<close> are as before.
\<close>

theorem reject_keeps_text:
  "(editor st = None \<longrightarrow> handleRejectPatch now docId threadId patch st = st)
   \<and> (editor st = Some doc \<longrightarrow>
        (\<exists>doc'. editor (handleRejectPatch now docId threadId patch st) = Some doc'
           \<and> map unmarked (tokens doc') = map unmarked (tokens doc)
           \<and> getText doc' = getText doc
           \<and> (findAnchorRange (Some doc) threadId = None \<longrightarrow> doc' = doc)
           \<and> (\<forall>a b. findAnchorRange (Some doc) threadId = Some (a, b) \<longrightarrow>
                 doc' = reject_transaction (a, b) doc
                 \<and> tokens doc'
                   = take a (tokens doc) @ map strip_token (take (b - a) (drop a (tokens doc)))
                       @ drop b (tokens doc))))
   \<and> (\<exists>P C. storage (handleRejectPatch now docId threadId patch st)
               = (storage st)\<lparr>patches_key := P, comments_key := C\<rparr>
         \<and> (P = patches_key (storage st)
            \<or> (\<exists>m ps i. patches_key (storage st) = Some (Json m) \<and> m docId = Some ps
                  \<and> i < length ps \<and> patch_id (ps ! i) = patch_id patch
                  \<and> P = Some (Json (m(docId \<mapsto>
                          ps[i := (ps ! i)\<lparr>status := status_rejected,
                                            patch_updatedAt := now\<rparr>])))))
         \<and> (C = comments_key (storage st)
            \<or> (\<exists>ts k v. comments_key (storage st) = Some (Json ts) \<and> k < length ts
                  \<and> comment_id (ts ! k) = threadId
                  \<and> C = Some (Json (ts[k := (ts ! k)\<lparr>resolved := v\<rparr>])))))
   \<and> (editor st = Some doc \<and> has_window (storage st) \<and> \<not> getItem_raises (storage st)
        \<and> \<not> setItem_raises (storage st)
        \<and> patches_key (storage st) = Some (Json m) \<and> m docId = Some ps
        \<and> findIndex (\<lambda>p. patch_id p = patch_id patch) ps = Some i \<longrightarrow>
        patches_key (storage (handleRejectPatch now docId threadId patch st))
          = Some (Json (m(docId \<mapsto>
              ps[i := (ps ! i)\<lparr>status := status_rejected, patch_updatedAt := now\<rparr>]))))
   \<and> (editor st = Some doc \<longrightarrow>
        patches (handleRejectPatch now docId threadId patch st)
          = patch_map (getPatches docId
              (storage (handleRejectPatch now docId threadId patch st))))
   \<and> alerts (handleRejectPatch now docId threadId patch st) = alerts st
   \<and> commentData (handleRejectPatch now docId threadId patch st) = commentData st
   \<and> onDeleteComment_calls (handleRejectPatch now docId threadId patch st)
       = onDeleteComment_calls st"
proof (intro conjI impI)
  assume "editor st = None"
  then show "handleRejectPatch now docId threadId patch st = st"
    by (simp add: handleRejectPatch_def)
next
  assume e: "editor st = Some doc"
  show "\<exists>doc'. editor (handleRejectPatch now docId threadId patch st) = Some doc'
           \<and> map unmarked (tokens doc') = map unmarked (tokens doc)
           \<and> getText doc' = getText doc
           \<and> (findAnchorRange (Some doc) threadId = None \<longrightarrow> doc' = doc)
           \<and> (\<forall>a b. findAnchorRange (Some doc) threadId = Some (a, b) \<longrightarrow>
                 doc' = reject_transaction (a, b) doc
                 \<and> tokens doc'
                   = take a (tokens doc) @ map strip_token (take (b - a) (drop a (tokens doc)))
                       @ drop b (tokens doc))"
  proof (cases "findAnchorRange (Some doc) threadId")
    case None
    with e have "editor (handleRejectPatch now docId threadId patch st) = Some doc"
      by (simp add: handleRejectPatch_editor)
    with None show ?thesis by simp
  next
    case (Some r)
    obtain a b where r: "r = (a, b)" by (cases r)
    from Some r have ab: "a \<le> b" by (auto dest: findAnchorRange_bounds)
    have 1: "editor (handleRejectPatch now docId threadId patch st)
        = Some (reject_transaction (a, b) doc)"
      using e Some r by (simp add: handleRejectPatch_editor)
    have 2: "map unmarked (tokens (reject_transaction (a, b) doc)) = map unmarked (tokens doc)"
      using ab by (rule reject_unmarked)
    have 3: "getText (reject_transaction (a, b) doc) = getText doc"
      using 2 by (rule getText_unmarked)
    have 4: "tokens (reject_transaction (a, b) doc)
        = take a (tokens doc) @ map strip_token (take (b - a) (drop a (tokens doc)))
            @ drop b (tokens doc)"
      using ab by (rule tokens_reject_transaction)
    from 1 2 3 4 Some r show ?thesis by simp
  qed
  show "patches (handleRejectPatch now docId threadId patch st)
          = patch_map (getPatches docId
              (storage (handleRejectPatch now docId threadId patch st)))"
    using e by (rule handleRejectPatch_patches)
next
  show "\<exists>P C. storage (handleRejectPatch now docId threadId patch st)
               = (storage st)\<lparr>patches_key := P, comments_key := C\<rparr>
         \<and> (P = patches_key (storage st)
            \<or> (\<exists>m ps i. patches_key (storage st) = Some (Json m) \<and> m docId = Some ps
                  \<and> i < length ps \<and> patch_id (ps ! i) = patch_id patch
                  \<and> P = Some (Json (m(docId \<mapsto>
                          ps[i := (ps ! i)\<lparr>status := status_rejected,
                                            patch_updatedAt := now\<rparr>])))))
         \<and> (C = comments_key (storage st)
            \<or> (\<exists>ts k v. comments_key (storage st) = Some (Json ts) \<and> k < length ts
                  \<and> comment_id (ts ! k) = threadId
                  \<and> C = Some (Json (ts[k := (ts ! k)\<lparr>resolved := v\<rparr>]))))"
  proof (cases "editor st")
    case None
    then have "storage (handleRejectPatch now docId threadId patch st)
        = (storage st)\<lparr>patches_key := patches_key (storage st),
                        comments_key := comments_key (storage st)\<rparr>"
      by (simp add: handleRejectPatch_storage)
    then show ?thesis by blast
  next
    case (Some d)
    then have "storage (handleRejectPatch now docId threadId patch st)
        = toggleResolveThread threadId
            (snd (updatePatch now docId (patch_id patch) (set_status status_rejected)
                    (storage st)))"
      by (simp add: handleRejectPatch_storage)
    then show ?thesis
      using reject_storage_frame [of threadId now docId "patch_id patch" "storage st"]
      by simp
  qed
next
  assume h: "editor st = Some doc \<and> has_window (storage st) \<and> \<not> getItem_raises (storage st)
        \<and> \<not> setItem_raises (storage st)
        \<and> patches_key (storage st) = Some (Json m) \<and> m docId = Some ps
        \<and> findIndex (\<lambda>p. patch_id p = patch_id patch) ps = Some i"
  have u: "updatePatch now docId (patch_id patch) (set_status status_rejected) (storage st)
      = (Some ((ps ! i)\<lparr>status := status_rejected, patch_updatedAt := now\<rparr>),
         (storage st)\<lparr>patches_key := Some (Json (m(docId \<mapsto>
            ps[i := (ps ! i)\<lparr>status := status_rejected, patch_updatedAt := now\<rparr>])))\<rparr>)"
    using h updatePatch_found [of "storage st" m docId ps "patch_id patch" i now
        "set_status status_rejected"]
    by (simp add: apply_set_status)
  from h show "patches_key (storage (handleRejectPatch now docId threadId patch st))
          = Some (Json (m(docId \<mapsto>
              ps[i := (ps ! i)\<lparr>status := status_rejected, patch_updatedAt := now\<rparr>])))"
    by (simp add: handleRejectPatch_storage u toggleResolveThread_patches)
next
  show "alerts (handleRejectPatch now docId threadId patch st) = alerts st"
    "commentData (handleRejectPatch now docId threadId patch st) = commentData st"
    "onDeleteComment_calls (handleRejectPatch now docId threadId patch st)
       = onDeleteComment_calls st"
    by (simp_all add: handleRejectPatch_frame)
qed

theorem reject_keeps_text_witness:
  "editor (handleRejectPatch 5 ''d1'' ''t1'' (example_patch ''p1'' ''d1'' ''t1'' status_open)
     (example_panel [OpenNode, TextNode ''abc '' [], TextNode ''foo'' [comment_mark ''t1''],
                     TextNode '' bar'' [], CloseNode]
        (example_storage (Some (Json [example_thread ''t1'' ''d1'' False True]))
           (Some (Json [''d1'' \<mapsto> [example_patch ''p1'' ''d1'' ''t1'' status_open]])))))
     = Some (reject_transaction (5, 8)
         [OpenNode, TextNode ''abc '' [], TextNode ''foo'' [comment_mark ''t1''],
          TextNode '' bar'' [], CloseNode])
   \<and> getText (reject_transaction (5, 8)
         [OpenNode, TextNode ''abc '' [], TextNode ''foo'' [comment_mark ''t1''],
          TextNode '' bar'' [], CloseNode]) = ''abc foo bar''
   \<and> patches_key (storage
       (handleRejectPatch 5 ''d1'' ''t1'' (example_patch ''p1'' ''d1'' ''t1'' status_open)
     (example_panel [OpenNode, TextNode ''abc '' [], TextNode ''foo'' [comment_mark ''t1''],
                     TextNode '' bar'' [], CloseNode]
        (example_storage (Some (Json [example_thread ''t1'' ''d1'' False True]))
           (Some (Json [''d1'' \<mapsto> [example_patch ''p1'' ''d1'' ''t1'' status_open]]))))))
     = Some (Json [''d1'' \<mapsto> [(example_patch ''p1'' ''d1'' ''t1'' status_rejected)
                                    \<lparr>patch_updatedAt := 5\<rparr>]])
   \<and> handleRejectPatch 5 ''d1'' ''t1'' (example_patch ''p1'' ''d1'' ''t1'' status_open)
       ((example_panel [OpenNode, TextNode ''abc foo bar'' [], CloseNode]
           (example_storage None None))\<lparr>editor := None\<rparr>)
     = (example_panel [OpenNode, TextNode ''abc foo bar'' [], CloseNode]
           (example_storage None None))\<lparr>editor := None\<rparr>"
proof -
  let ?p = "example_patch ''p1'' ''d1'' ''t1'' status_open"
  let ?doc = "[OpenNode, TextNode ''abc '' [], TextNode ''foo'' [comment_mark ''t1''],
               TextNode '' bar'' [], CloseNode]"
  let ?ls = "example_storage (Some (Json [example_thread ''t1'' ''d1'' False True]))
           (Some (Json [''d1'' \<mapsto> [?p]]))"
  let ?st = "example_panel ?doc ?ls"
  let ?s0 = "(example_panel [OpenNode, TextNode ''abc foo bar'' [], CloseNode]
           (example_storage None None))\<lparr>editor := None\<rparr>"
  have f: "findAnchorRange (Some ?doc) ''t1'' = Some (5, 8)"
    by (simp add: findAnchorRange_def descendants_def visit_def mark_step_def mark_matches_def
          comment_mark_def)
  have g: "getText ?doc = ''abc foo bar''" by (simp add: getText_def)
  have e: "editor ?st = Some ?doc" "has_window (storage ?st)" "\<not> getItem_raises (storage ?st)"
    "\<not> setItem_raises (storage ?st)" "patches_key (storage ?st) = Some (Json [''d1'' \<mapsto> [?p]])"
    by (simp_all add: example_panel_def example_storage_def)
  have i: "findIndex (\<lambda>p. patch_id p = patch_id ?p) [?p] = Some 0" by simp
  have md: "[''d1'' \<mapsto> [?p]] ''d1'' = Some [?p]" by simp
  have u: "[?p][0 := ([?p] ! 0)\<lparr>status := status_rejected, patch_updatedAt := 5\<rparr>]
      = [(example_patch ''p1'' ''d1'' ''t1'' status_rejected)\<lparr>patch_updatedAt := 5\<rparr>]"
    by (simp add: example_patch_def)
  note T = reject_keeps_text [where st = ?st and doc = ?doc and threadId = "''t1''"
      and patch = ?p and now = 5 and docId = "''d1''" and m = "[''d1'' \<mapsto> [?p]]"
      and ps = "[?p]" and i = 0]
  from T [THEN conjunct2, THEN conjunct1, THEN mp, OF e(1)]
  obtain doc' where d: "editor (handleRejectPatch 5 ''d1'' ''t1'' ?p ?st) = Some doc'"
    "getText doc' = getText ?doc"
    "\<forall>a b. findAnchorRange (Some ?doc) ''t1'' = Some (a, b) \<longrightarrow>
       doc' = reject_transaction (a, b) ?doc
       \<and> tokens doc'
         = take a (tokens ?doc) @ map strip_token (take (b - a) (drop a (tokens ?doc)))
             @ drop b (tokens ?doc)"
    by (elim exE conjE)
  from d(3) [rule_format, OF f] have d': "doc' = reject_transaction (5, 8) ?doc" ..
  have 1: "editor (handleRejectPatch 5 ''d1'' ''t1'' ?p ?st)
      = Some (reject_transaction (5, 8) ?doc)"
    using d(1) d' by simp
  have 2: "getText (reject_transaction (5, 8) ?doc) = ''abc foo bar''"
    using d(2) d' g by simp
  have "patches_key (storage (handleRejectPatch 5 ''d1'' ''t1'' ?p ?st))
      = Some (Json ([''d1'' \<mapsto> [?p]](''d1'' \<mapsto>
          [?p][0 := ([?p] ! 0)\<lparr>status := status_rejected, patch_updatedAt := 5\<rparr>])))"
    by (rule T [THEN conjunct2, THEN conjunct2, THEN conjunct2, THEN conjunct1, THEN mp])
       (intro conjI e md i)
  then have 3: "patches_key (storage (handleRejectPatch 5 ''d1'' ''t1'' ?p ?st))
      = Some (Json [''d1'' \<mapsto> [(example_patch ''p1'' ''d1'' ''t1'' status_rejected)
                                    \<lparr>patch_updatedAt := 5\<rparr>]])"
    unfolding u by simp
  have "editor ?s0 = None" by simp
  then have 4: "handleRejectPatch 5 ''d1'' ''t1'' ?p ?s0 = ?s0"
    by (rule reject_keeps_text [where st = ?s0 and threadId = "''t1''" and patch = ?p
          and now = 5 and docId = "''d1''", THEN conjunct1, THEN mp])
  from 1 2 3 4 show ?thesis by blast
qed

text \<open>
  C4 as stated fails where the anchor resolves: the document after the reject is not the
  document before it, the comment mark of the thread is gone. And the stored patch does
  not differ from the old one by its status alone: its update time is the clock's.
\<close>

theorem reject_removes_mark_counterexample:
  "editor (handleRejectPatch 5 ''d1'' ''t1'' (example_patch ''p1'' ''d1'' ''t1'' status_open)
     (example_panel [OpenNode, TextNode ''abc '' [], TextNode ''foo'' [comment_mark ''t1''],
                     TextNode '' bar'' [], CloseNode]
        (example_storage (Some (Json [example_thread ''t1'' ''d1'' False True]))
           (Some (Json [''d1'' \<mapsto> [example_patch ''p1'' ''d1'' ''t1'' status_open]])))))
     = Some [OpenNode, TextNode ''abc '' [], TextNode ''foo'' [], TextNode '' bar'' [], CloseNode]
   \<and> editor (handleRejectPatch 5 ''d1'' ''t1'' (example_patch ''p1'' ''d1'' ''t1'' status_open)
     (example_panel [OpenNode, TextNode ''abc '' [], TextNode ''foo'' [comment_mark ''t1''],
                     TextNode '' bar'' [], CloseNode]
        (example_storage (Some (Json [example_thread ''t1'' ''d1'' False True]))
           (Some (Json [''d1'' \<mapsto> [example_patch ''p1'' ''d1'' ''t1'' status_open]])))))
     \<noteq> editor (example_panel [OpenNode, TextNode ''abc '' [],
                     TextNode ''foo'' [comment_mark ''t1''], TextNode '' bar'' [], CloseNode]
        (example_storage (Some (Json [example_thread ''t1'' ''d1'' False True]))
           (Some (Json [''d1'' \<mapsto> [example_patch ''p1'' ''d1'' ''t1'' status_open]]))))
   \<and> stored_patches (storage
       (handleRejectPatch 5 ''d1'' ''t1'' (example_patch ''p1'' ''d1'' ''t1'' status_open)
     (example_panel [OpenNode, TextNode ''abc '' [], TextNode ''foo'' [comment_mark ''t1''],
                     TextNode '' bar'' [], CloseNode]
        (example_storage (Some (Json [example_thread ''t1'' ''d1'' False True]))
           (Some (Json [''d1'' \<mapsto> [example_patch ''p1'' ''d1'' ''t1'' status_open]])))))) ''d1''
     = Some [(example_patch ''p1'' ''d1'' ''t1'' status_rejected)\<lparr>patch_updatedAt := 5\<rparr>]
   \<and> (example_patch ''p1'' ''d1'' ''t1'' status_rejected)\<lparr>patch_updatedAt := 5\<rparr>
     \<noteq> (example_patch ''p1'' ''d1'' ''t1'' status_open)\<lparr>status := status_rejected\<rparr>"
proof -
  let ?p = "example_patch ''p1'' ''d1'' ''t1'' status_open"
  let ?doc = "[OpenNode, TextNode ''abc '' [], TextNode ''foo'' [comment_mark ''t1''],
               TextNode '' bar'' [], CloseNode]"
  let ?ls = "example_storage (Some (Json [example_thread ''t1'' ''d1'' False True]))
           (Some (Json [''d1'' \<mapsto> [?p]]))"
  have f: "findAnchorRange (Some ?doc) ''t1'' = Some (5, 8)"
    by (simp add: findAnchorRange_def descendants_def visit_def mark_step_def mark_matches_def
          comment_mark_def)
  have e: "editor (handleRejectPatch 5 ''d1'' ''t1'' ?p (example_panel ?doc ?ls))
     = Some (reject_transaction (5, 8) ?doc)"
    by (simp add: handleRejectPatch_editor f example_panel_def)
  have r: "reject_transaction (5, 8) ?doc
      = [OpenNode, TextNode ''abc '' [], TextNode ''foo'' [], TextNode '' bar'' [], CloseNode]"
    by (simp add: reject_transaction_def setTextSelection_def unsetComment_def cut_between_def
          comment_mark_def)
  have u: "updatePatch 5 ''d1'' (patch_id ?p) (set_status status_rejected) ?ls
      = (Some ((example_patch ''p1'' ''d1'' ''t1'' status_rejected)\<lparr>patch_updatedAt := 5\<rparr>),
         example_storage (Some (Json [example_thread ''t1'' ''d1'' False True]))
           (Some (Json [''d1'' \<mapsto> [(example_patch ''p1'' ''d1'' ''t1'' status_rejected)
                                          \<lparr>patch_updatedAt := 5\<rparr>]])))"
    by (simp add: example_storage_def example_patch_def set_status_def apply_updates_def
          updatePatch_def updatePatch_try_def getItem_patches_def setItem_patches_def
          JSON_parse_def Let_def)
  have s: "stored_patches (storage (handleRejectPatch 5 ''d1'' ''t1'' ?p (example_panel ?doc ?ls)))
        ''d1''
      = Some [(example_patch ''p1'' ''d1'' ''t1'' status_rejected)\<lparr>patch_updatedAt := 5\<rparr>]"
  proof -
    have "storage (handleRejectPatch 5 ''d1'' ''t1'' ?p (example_panel ?doc ?ls))
        = toggleResolveThread ''t1''
            (snd (updatePatch 5 ''d1'' (patch_id ?p) (set_status status_rejected) ?ls))"
      by (simp add: handleRejectPatch_storage example_panel_def)
    then show ?thesis
      unfolding u
      by (simp add: stored_patches_def toggleResolveThread_patches example_storage_def)
  qed
  have n: "(example_patch ''p1'' ''d1'' ''t1'' status_rejected)\<lparr>patch_updatedAt := 5\<rparr>
     \<noteq> (example_patch ''p1'' ''d1'' ''t1'' status_open)\<lparr>status := status_rejected\<rparr>"
    by (simp add: example_patch_def)
  show ?thesis
    unfolding e r using s n by (simp add: example_panel_def comment_mark_def)
qed


section \<open>Orphaned threads\<close>

lemma getAllCommentData_None:
  "getAllCommentData doc cid = None \<longleftrightarrow> (\<forall>n \<in> set doc. \<not> annotated cid n)"
  unfolding matching_nodes_empty [symmetric]
  by (simp add: getAllCommentData_def matching_nodes_def split: list.splits)

lemma readFromStorage_healthy:
  "has_window ls \<Longrightarrow> \<not> getItem_raises ls \<Longrightarrow> comments_key ls = Some (Json xs) \<Longrightarrow>
     readFromStorage ls = Some xs"
  by (simp add: readFromStorage_def readFromStorage_try_def getItem_comments_def JSON_parse_def)

lemma getDocumentComments_healthy:
  "has_window ls \<Longrightarrow> \<not> getItem_raises ls \<Longrightarrow> comments_key ls = Some (Json xs) \<Longrightarrow>
     getDocumentComments d ls = Inr (sort_key createdAt (filter (\<lambda>c. documentId c = d) xs))"
  by (simp add: getDocumentComments_def readFromStorage_healthy)

lemma deleteComment_healthy:
  "has_window ls \<Longrightarrow> \<not> getItem_raises ls \<Longrightarrow> \<not> setItem_raises ls \<Longrightarrow>
   comments_key ls = Some (Json xs) \<Longrightarrow>
     deleteComment cid ls
       = Inr (ls\<lparr>comments_key := Some (Json (filter (\<lambda>c. comment_id c \<noteq> cid) xs))\<rparr>)"
  by (simp add: deleteComment_def readFromStorage_healthy writeToStorage_def
        setItem_comments_def Let_def)

lemma delete_orphans_healthy:
  assumes "has_window (storage st)" "\<not> getItem_raises (storage st)"
          "\<not> setItem_raises (storage st)" "comments_key (storage st) = Some (Json xs)"
  shows "delete_orphans os st
         = (st\<lparr>storage := (storage st)\<lparr>comments_key :=
                  Some (Json (filter (\<lambda>c. comment_id c \<notin> comment_id ` set os) xs))\<rparr>,
               onDeleteComment_calls := onDeleteComment_calls st @ map comment_id os\<rparr>, None)"
  using assms
proof (induction os arbitrary: st xs)
  case Nil
  then show ?case by simp
next
  case (Cons t os)
  let ?ls1 = "(storage st)\<lparr>comments_key :=
      Some (Json (filter (\<lambda>c. comment_id c \<noteq> comment_id t) xs))\<rparr>"
  let ?st1 = "st\<lparr>storage := ?ls1,
                onDeleteComment_calls := onDeleteComment_calls st @ [comment_id t]\<rparr>"
  have d: "deleteComment (comment_id t) (storage st) = Inr ?ls1"
    using Cons.prems by (rule deleteComment_healthy)
  have "delete_orphans os ?st1
         = (?st1\<lparr>storage := (storage ?st1)\<lparr>comments_key :=
                  Some (Json (filter (\<lambda>c. comment_id c \<notin> comment_id ` set os)
                                (filter (\<lambda>c. comment_id c \<noteq> comment_id t) xs)))\<rparr>,
               onDeleteComment_calls := onDeleteComment_calls ?st1 @ map comment_id os\<rparr>, None)"
    using Cons.prems by (intro Cons.IH) simp_all
  moreover have "filter (\<lambda>c. comment_id c \<notin> comment_id ` set os)
                   (filter (\<lambda>c. comment_id c \<noteq> comment_id t) xs)
      = filter (\<lambda>c. comment_id c \<notin> comment_id ` set (t # os)) xs"
    by (auto intro: filter_cong)
  ultimately show ?case by (simp add: d)
qed

lemma refresh_healthy:
  assumes e: "editor st = Some doc"
      and ok: "has_window (storage st)" "\<not> getItem_raises (storage st)"
              "\<not> setItem_raises (storage st)"
      and ck: "comments_key (storage st) = Some (Json ts)"
  shows "storage (refreshCommentData docId st)
           = (storage st)\<lparr>comments_key := Some (Json
               (filter (\<lambda>t. comment_id t \<notin> comment_id ` {x \<in> set ts. orphaned doc docId x}) ts))\<rparr>"
    and "uncaught (refreshCommentData docId st) = uncaught st"
proof -
  let ?data = "getAllCommentData doc"
  let ?st1 = "st\<lparr>commentData := ?data\<rparr>"
  let ?stored = "sort_key createdAt (filter (\<lambda>c. documentId c = docId) ts)"
  let ?os = "filter (\<lambda>thread. \<not> isAIThread thread \<and> ?data (comment_id thread) = None) ?stored"
  let ?ts' = "filter (\<lambda>c. comment_id c \<notin> comment_id ` set ?os) ts"
  have g: "getDocumentComments docId (storage ?st1) = Inr ?stored"
    using ok ck by (simp add: getDocumentComments_healthy)
  have os: "set ?os = {x \<in> set ts. orphaned doc docId x}"
    by (auto simp: orphaned_def getAllCommentData_None)
  have "storage (refreshCommentData docId st) = (storage st)\<lparr>comments_key := Some (Json ?ts')\<rparr>
      \<and> uncaught (refreshCommentData docId st) = uncaught st"
  proof (cases "?os = []")
    case True
    then have "?ts' = ts" by simp
    moreover have "refreshCommentData docId st = ?st1"
      using e g True by (simp add: refreshCommentData_def Let_def)
    ultimately show ?thesis using ck by simp
  next
    case False
    let ?st2 = "?st1\<lparr>storage := (storage ?st1)\<lparr>comments_key := Some (Json ?ts')\<rparr>,
               onDeleteComment_calls := onDeleteComment_calls ?st1 @ map comment_id ?os\<rparr>"
    have f: "delete_orphans ?os ?st1 = (?st2, None)"
      using ok ck by (intro delete_orphans_healthy) simp_all
    have g2: "getDocumentComments docId ((storage st)\<lparr>comments_key := Some (Json ?ts')\<rparr>)
        = Inr (sort_key createdAt (filter (\<lambda>c. documentId c = docId) ?ts'))"
      using ok by (intro getDocumentComments_healthy) simp_all
    have "refreshCommentData docId st
        = ?st2\<lparr>threads := sort_key createdAt (filter (\<lambda>c. documentId c = docId) ?ts')\<rparr>"
      using e False g unfolding refreshCommentData_def
      by (simp add: Let_def f g2 del: set_filter)
    then show ?thesis by simp
  qed
  then show "storage (refreshCommentData docId st)
           = (storage st)\<lparr>comments_key := Some (Json
               (filter (\<lambda>t. comment_id t \<notin> comment_id ` {x \<in> set ts. orphaned doc docId x}) ts))\<rparr>"
    and "uncaught (refreshCommentData docId st) = uncaught st"
    unfolding os by simp_all
qed

lemma delete_orphans_frame:
  "alerts (fst (delete_orphans os s0)) = alerts s0
   \<and> editor (fst (delete_orphans os s0)) = editor s0
   \<and> patches (fst (delete_orphans os s0)) = patches s0
   \<and> uncaught (fst (delete_orphans os s0)) = uncaught s0"
  by (induction os arbitrary: s0) (simp_all split: sum.splits)

lemma refresh_frame:
  "alerts (refreshCommentData docId st) = alerts st
   \<and> editor (refreshCommentData docId st) = editor st
   \<and> patches (refreshCommentData docId st) = patches st"
proof (cases "editor st")
  case None
  then show ?thesis by (simp add: refreshCommentData_def)
next
  case (Some doc)
  have "alerts (case delete_orphans os s1 of
                  (st2, Some e) \<Rightarrow> st2\<lparr>uncaught := uncaught st2 @ [e]\<rparr>
                | (st2, None) \<Rightarrow>
                    (case getDocumentComments docId (storage st2) of
                       Inl e \<Rightarrow> st2\<lparr>uncaught := uncaught st2 @ [e]\<rparr>
                     | Inr docs \<Rightarrow> st2\<lparr>threads := docs\<rparr>)) = alerts s1
      \<and> editor (case delete_orphans os s1 of
                  (st2, Some e) \<Rightarrow> st2\<lparr>uncaught := uncaught st2 @ [e]\<rparr>
                | (st2, None) \<Rightarrow>
                    (case getDocumentComments docId (storage st2) of
                       Inl e \<Rightarrow> st2\<lparr>uncaught := uncaught st2 @ [e]\<rparr>
                     | Inr docs \<Rightarrow> st2\<lparr>threads := docs\<rparr>)) = editor s1
      \<and> patches (case delete_orphans os s1 of
                  (st2, Some e) \<Rightarrow> st2\<lparr>uncaught := uncaught st2 @ [e]\<rparr>
                | (st2, None) \<Rightarrow>
                    (case getDocumentComments docId (storage st2) of
                       Inl e \<Rightarrow> st2\<lparr>uncaught := uncaught st2 @ [e]\<rparr>
                     | Inr docs \<Rightarrow> st2\<lparr>threads := docs\<rparr>)) = patches s1"
    for os s1
    using delete_orphans_frame [of os s1]
    by (cases "delete_orphans os s1") (auto split: option.splits sum.splits)
  with Some show ?thesis
    by (simp add: refreshCommentData_def Let_def split: sum.splits)
qed

text \<open>
  C8, as amended. A refresh with the editor present and a storage that can be read and
  written leaves under the comment key the stored threads without every thread that has
  the identifier of an orphan: of a thread of the current document that is not an AI
  thread and whose identifier annotates no text of the document. So every orphan is gone,
  and every thread that shares its identifier with no orphan stays, the AI threads among
  them; when the stored identifiers are distinct, exactly the orphans are gone. The patch
  key, the document and the alerts are untouched and no exception leaves the refresh:
  nothing is reported. In the example the word \<open>world\<close> with the mark of thread \<open>t1\<close> has
  been deleted from \<open>Hello world\<close>; the refresh removes \<open>t1\<close> and keeps the AI thread
  \<open>t2\<close>.
\<close>

theorem refresh_removes_orphans:
  "(editor st = Some doc \<and> has_window (storage st) \<and> \<not> getItem_raises (storage st)
      \<and> \<not> setItem_raises (storage st) \<and> comments_key (storage st) = Some (Json ts)
    \<longrightarrow> (\<exists>ts'. comments_key (storage (refreshCommentData docId st)) = Some (Json ts')
           \<and> ts' = filter (\<lambda>t. \<forall>x \<in> set ts. orphaned doc docId x \<longrightarrow> comment_id x \<noteq> comment_id t)
                    ts
           \<and> (\<forall>t \<in> set ts. orphaned doc docId t \<longrightarrow> t \<notin> set ts')
           \<and> (\<forall>t \<in> set ts. (\<forall>x \<in> set ts. orphaned doc docId x \<longrightarrow> comment_id x \<noteq> comment_id t)
                 \<longrightarrow> t \<in> set ts')
           \<and> (\<forall>t \<in> set ts. isAIThread t \<and> t \<notin> set ts'
                 \<longrightarrow> (\<exists>x \<in> set ts. orphaned doc docId x \<and> comment_id x = comment_id t))
           \<and> (distinct (map comment_id ts) \<longrightarrow>
                 ts' = filter (\<lambda>t. \<not> orphaned doc docId t) ts
                 \<and> (\<forall>t \<in> set ts. isAIThread t \<longrightarrow> t \<in> set ts')))
         \<and> patches_key (storage (refreshCommentData docId st)) = patches_key (storage st)
         \<and> uncaught (refreshCommentData docId st) = uncaught st)
   \<and> alerts (refreshCommentData docId st) = alerts st
   \<and> editor (refreshCommentData docId st) = editor st"
proof (intro conjI impI)
  assume h: "editor st = Some doc \<and> has_window (storage st) \<and> \<not> getItem_raises (storage st)
      \<and> \<not> setItem_raises (storage st) \<and> comments_key (storage st) = Some (Json ts)"
  let ?O = "{x \<in> set ts. orphaned doc docId x}"
  let ?keep = "\<lambda>t. \<forall>x \<in> set ts. orphaned doc docId x \<longrightarrow> comment_id x \<noteq> comment_id t"
  let ?ts' = "filter ?keep ts"
  have k: "filter (\<lambda>t. comment_id t \<notin> comment_id ` ?O) ts = ?ts'"
    by (rule filter_cong) (auto simp: image_iff)
  have s: "storage (refreshCommentData docId st)
      = (storage st)\<lparr>comments_key := Some (Json ?ts')\<rparr>"
    using h refresh_healthy(1) [of st doc ts docId] unfolding k by simp
  then show "patches_key (storage (refreshCommentData docId st)) = patches_key (storage st)"
    by simp
  show "uncaught (refreshCommentData docId st) = uncaught st"
    using h by (intro refresh_healthy(2) [of st doc ts docId]) simp_all
  have d: "?ts' = filter (\<lambda>t. \<not> orphaned doc docId t) ts" if "distinct (map comment_id ts)"
  proof (rule filter_cong [OF refl])
    fix t assume t: "t \<in> set ts"
    show "?keep t = (\<not> orphaned doc docId t)"
    proof
      assume "?keep t"
      with t show "\<not> orphaned doc docId t" by auto
    next
      assume n: "\<not> orphaned doc docId t"
      show "?keep t"
      proof (intro ballI impI)
        fix x assume x: "x \<in> set ts" "orphaned doc docId x"
        show "comment_id x \<noteq> comment_id t"
        proof
          assume "comment_id x = comment_id t"
          with that t x(1) have "x = t" by (meson distinct_map inj_onD)
          with x(2) n show False by simp
        qed
      qed
    qed
  qed
  show "\<exists>ts'. comments_key (storage (refreshCommentData docId st)) = Some (Json ts')
           \<and> ts' = ?ts'
           \<and> (\<forall>t \<in> set ts. orphaned doc docId t \<longrightarrow> t \<notin> set ts')
           \<and> (\<forall>t \<in> set ts. ?keep t \<longrightarrow> t \<in> set ts')
           \<and> (\<forall>t \<in> set ts. isAIThread t \<and> t \<notin> set ts'
                 \<longrightarrow> (\<exists>x \<in> set ts. orphaned doc docId x \<and> comment_id x = comment_id t))
           \<and> (distinct (map comment_id ts) \<longrightarrow>
                 ts' = filter (\<lambda>t. \<not> orphaned doc docId t) ts
                 \<and> (\<forall>t \<in> set ts. isAIThread t \<longrightarrow> t \<in> set ts'))"
  proof (intro exI [of _ ?ts'] conjI impI ballI)
    show "comments_key (storage (refreshCommentData docId st)) = Some (Json ?ts')"
      by (simp add: s)
    show "?ts' = ?ts'" ..
    show "t \<notin> set ?ts'" if "t \<in> set ts" "orphaned doc docId t" for t
      using that by auto
    show "t \<in> set ?ts'" if "t \<in> set ts" "?keep t" for t
      using that by simp
    show "\<exists>x \<in> set ts. orphaned doc docId x \<and> comment_id x = comment_id t"
      if "t \<in> set ts" "isAIThread t \<and> t \<notin> set ?ts'" for t
      using that by auto
    show "?ts' = filter (\<lambda>t. \<not> orphaned doc docId t) ts" if "distinct (map comment_id ts)"
      using that by (rule d)
    show "t \<in> set ?ts'" if "distinct (map comment_id ts)" "t \<in> set ts" "isAIThread t" for t
      using that d by (simp add: orphaned_def)
  qed
next
  show "alerts (refreshCommentData docId st) = alerts st"
    by (simp add: refresh_frame)
  show "editor (refreshCommentData docId st) = editor st"
    by (simp add: refresh_frame)
qed

theorem refresh_removes_orphans_witness:
  "comments_key (storage (refreshCommentData ''d1''
     (example_panel [OpenNode, TextNode ''Hello '' [], CloseNode]
        (example_storage
           (Some (Json [example_thread ''t1'' ''d1'' False False,
                        example_thread ''t2'' ''d1'' False True]))
           None))))
   = Some (Json [example_thread ''t2'' ''d1'' False True])
   \<and> comments_key (storage (refreshCommentData ''d1''
     (example_panel [OpenNode, TextNode ''Hello '' [], TextNode ''world'' [comment_mark ''t1''],
                     CloseNode]
        (example_storage
           (Some (Json [example_thread ''t1'' ''d1'' False False,
                        example_thread ''t2'' ''d1'' False True]))
           None))))
   = Some (Json [example_thread ''t1'' ''d1'' False False,
                 example_thread ''t2'' ''d1'' False True])"
  using refresh_removes_orphans
    [where st = "example_panel [OpenNode, TextNode ''Hello '' [], CloseNode]
        (example_storage
           (Some (Json [example_thread ''t1'' ''d1'' False False,
                        example_thread ''t2'' ''d1'' False True]))
           None)"
       and doc = "[OpenNode, TextNode ''Hello '' [], CloseNode]" and docId = "''d1''"
       and ts = "[example_thread ''t1'' ''d1'' False False,
                  example_thread ''t2'' ''d1'' False True]"]
    refresh_removes_orphans
    [where st = "example_panel [OpenNode, TextNode ''Hello '' [],
                     TextNode ''world'' [comment_mark ''t1''], CloseNode]
        (example_storage
           (Some (Json [example_thread ''t1'' ''d1'' False False,
                        example_thread ''t2'' ''d1'' False True]))
           None)"
       and doc = "[OpenNode, TextNode ''Hello '' [], TextNode ''world'' [comment_mark ''t1''],
                     CloseNode]" and docId = "''d1''"
       and ts = "[example_thread ''t1'' ''d1'' False False,
                  example_thread ''t2'' ''d1'' False True]"]
  by (auto simp: example_panel_def example_storage_def example_thread_def orphaned_def
        annotated_def mark_matches_def comment_mark_def)

text \<open>
  C8 as stated fails twice. Deletion is by identifier: an AI thread that has the
  identifier of an orphan is deleted with it. And when the storage cannot be written, the
  orphan survives the refresh.
\<close>

theorem refresh_deletes_by_id_counterexample:
  "isAIThread (example_thread ''t1'' ''d1'' False True)
   \<and> comments_key (storage (refreshCommentData ''d1''
     (example_panel [OpenNode, TextNode ''Hello '' [], CloseNode]
        (example_storage
           (Some (Json [example_thread ''t1'' ''d1'' False True,
                        example_thread ''t1'' ''d1'' False False]))
           None))))
     = Some (Json [])
   \<and> comments_key (storage (refreshCommentData ''d1''
     (example_panel [OpenNode, TextNode ''Hello '' [], CloseNode]
        ((example_storage (Some (Json [example_thread ''t1'' ''d1'' False False])) None)
           \<lparr>setItem_raises := True\<rparr>))))
     = Some (Json [example_thread ''t1'' ''d1'' False False])"
  by (simp add: refreshCommentData_def example_panel_def example_storage_def
        example_thread_def getAllCommentData_def descendants_def annotated_def store_defs
        Let_def)


section \<open>Accepting twice\<close>

lemma fold_patch_map:
  "fold (\<lambda>patch patchMap. patchMap(anchorId patch \<mapsto> patch)) xs M k =
     (case filter (\<lambda>q. anchorId q = k) xs of [] \<Rightarrow> M k | y # ys \<Rightarrow> Some (last (y # ys)))"
proof (induction xs arbitrary: M)
  case Nil
  then show ?case by simp
next
  case (Cons x xs)
  have "fold (\<lambda>patch patchMap. patchMap(anchorId patch \<mapsto> patch)) (x # xs) M k
      = fold (\<lambda>patch patchMap. patchMap(anchorId patch \<mapsto> patch)) xs (M(anchorId x \<mapsto> x)) k"
    by simp
  also have "\<dots> = (case filter (\<lambda>q. anchorId q = k) xs of
                      [] \<Rightarrow> (M(anchorId x \<mapsto> x)) k | y # ys \<Rightarrow> Some (last (y # ys)))"
    by (rule Cons)
  also have "\<dots> = (case filter (\<lambda>q. anchorId q = k) (x # xs) of
                      [] \<Rightarrow> M k | y # ys \<Rightarrow> Some (last (y # ys)))"
    by (cases "filter (\<lambda>q. anchorId q = k) xs") auto
  finally show ?case .
qed

lemma patch_map_eq:
  "patch_map xs k =
     (case filter (\<lambda>q. anchorId q = k) xs of [] \<Rightarrow> None | y # ys \<Rightarrow> Some (last (y # ys)))"
  by (simp add: patch_map_def fold_patch_map)

lemma list_update_distinct_map:
  "distinct (map f xs) \<Longrightarrow> i < length xs \<Longrightarrow>
     xs[i := y] = map (\<lambda>q. if f q = f (xs ! i) then y else q) xs"
proof (induction xs arbitrary: i)
  case Nil
  then show ?case by simp
next
  case (Cons x xs)
  show ?case
  proof (cases i)
    case 0
    have "map (\<lambda>q. if f q = f x then y else q) xs = xs"
      using Cons.prems by (intro map_idI) (auto simp: image_iff)
    with 0 show ?thesis by simp
  next
    case (Suc j)
    with Cons.prems have "xs[j := y] = map (\<lambda>q. if f q = f (xs ! j) then y else q) xs"
      by (intro Cons.IH) simp_all
    moreover have "f x \<noteq> f (xs ! j)" using Cons.prems Suc by auto
    ultimately show ?thesis using Suc by simp
  qed
qed

lemma findIndex_distinct:
  assumes "distinct (map f xs)" "p \<in> set xs" "findIndex (\<lambda>q. f q = f p) xs = Some i"
  shows "xs ! i = p"
proof -
  from findIndex_Some [OF assms(3)] have "i < length xs" "f (xs ! i) = f p" by simp_all
  with assms(1,2) show ?thesis
    by (metis distinct_map inj_onD nth_mem)
qed

lemma findIndex_mem: "p \<in> set xs \<Longrightarrow> P p \<Longrightarrow> \<exists>i. findIndex P xs = Some i"
  using findIndex_None [of P xs] by (cases "findIndex P xs") auto

lemma getPatches_healthy:
  "has_window ls \<Longrightarrow> \<not> getItem_raises ls \<Longrightarrow>
     getPatches d ls = (case patches_key ls of
                          Some (Json m) \<Rightarrow> (case m d of None \<Rightarrow> [] | Some ps \<Rightarrow> ps)
                        | _ \<Rightarrow> [])"
  by (simp add: getPatches_def getPatches_try_def getItem_patches_def JSON_parse_def
      split: option.splits stored.splits)

lemma getPatches_toggle:
  "getPatches d (toggleResolveThread t ls) = getPatches d ls"
  by (simp add: getPatches_def getPatches_try_def getItem_patches_def toggleResolveThread_patches)

lemma handleAcceptPatch_patches:
  "editor st = Some doc \<Longrightarrow> accept_range doc threadId patch = Some r \<Longrightarrow>
     patches (handleAcceptPatch now docId threadId patch st)
       = patch_map (getPatches docId
           (snd (updatePatch now docId (patch_id patch) (set_status status_accepted) (storage st))))"
  by (simp add: handleAcceptPatch_def Let_def loadPatches_def getPatches_toggle)

lemma patch_map_update:
  assumes d: "distinct (map patch_id ps)"
      and p: "patch_map ps k = Some p"
      and i: "findIndex (\<lambda>q. patch_id q = patch_id p) ps = Some i"
      and a: "anchorId p' = anchorId p"
  shows "patch_map (ps[i := p']) k = Some p'"
proof -
  let ?g = "\<lambda>q. if patch_id q = patch_id p then p' else q"
  from p obtain y ys where f: "filter (\<lambda>q. anchorId q = k) ps = y # ys" and l: "last (y # ys) = p"
    by (auto simp: patch_map_eq split: list.splits)
  have "p \<in> set (filter (\<lambda>q. anchorId q = k) ps)"
    unfolding f using l by (metis last_in_set list.discI)
  then have pin: "p \<in> set ps" and pk: "anchorId p = k" by simp_all
  have pi: "ps ! i = p" using d pin i by (rule findIndex_distinct)
  have il: "i < length ps" using findIndex_Some [OF i] by simp
  have u: "ps[i := p'] = map ?g ps"
    using list_update_distinct_map [OF d il, of p'] pi by simp
  have g: "anchorId (?g q) = k \<longleftrightarrow> anchorId q = k" if "q \<in> set ps" for q
  proof (cases "patch_id q = patch_id p")
    case True
    with d pin that have "q = p" by (meson distinct_map inj_onD)
    with a pk show ?thesis by simp
  next
    case False
    then show ?thesis by simp
  qed
  have "filter (\<lambda>q. anchorId q = k) (map ?g ps) = map ?g (filter (\<lambda>q. anchorId q = k) ps)"
    unfolding filter_map comp_def using g by (intro arg_cong [where f = "map ?g"] filter_cong) auto
  then have fl: "filter (\<lambda>q. anchorId q = k) (ps[i := p']) = ?g y # map ?g ys"
    by (simp add: u f)
  have "last (map ?g (y # ys)) = ?g (last (y # ys))"
    by (rule last_map) simp
  also have "\<dots> = p'" unfolding l by simp
  finally have lm: "last (?g y # map ?g ys) = p'"
    by (simp only: list.map)
  have "patch_map (ps[i := p']) k = Some (last (?g y # map ?g ys))"
    unfolding patch_map_eq fl by (simp only: list.case)
  then show ?thesis by (simp only: lm)
qed

lemma click_accept_twice:
  assumes sync: "patches st = patch_map (getPatches docId (storage st))"
      and ok: "has_window (storage st)" "\<not> getItem_raises (storage st)"
              "\<not> setItem_raises (storage st)"
      and dist: "distinct (map patch_id (getPatches docId (storage st)))"
  shows "editor (click_accept now' docId threadId (click_accept now docId threadId st))
           = editor (click_accept now docId threadId st)"
proof (cases "patches st threadId")
  case None
  then show ?thesis by (simp add: click_accept_def)
next
  case (Some p)
  show ?thesis
  proof (cases "isResolved p")
    case True
    with Some show ?thesis by (simp add: click_accept_def)
  next
    case False
    with Some have c1: "click_accept n docId threadId st
        = handleAcceptPatch n docId threadId p st" for n
      by (simp add: click_accept_def)
    show ?thesis
    proof (cases "editor st")
      case None
      then have "handleAcceptPatch n docId threadId p st = st" for n
        by (simp add: handleAcceptPatch_def)
      with c1 show ?thesis by simp
    next
      case (Some doc)
      note ed = Some
      show ?thesis
      proof (cases "accept_range doc threadId p")
        case None
        with ed have h: "handleAcceptPatch now docId threadId p st
            = st\<lparr>alerts := alerts st @ [not_found_message]\<rparr>"
          by (simp add: handleAcceptPatch_def)
        have "editor (handleAcceptPatch now' docId threadId p
                  (st\<lparr>alerts := alerts st @ [not_found_message]\<rparr>)) = Some doc"
          using ed None by (simp add: handleAcceptPatch_editor)
        with c1 h ed \<open>patches st threadId = Some p\<close> False show ?thesis
          by (simp add: click_accept_def)
      next
        case (Some r)
        let ?ps = "getPatches docId (storage st)"
        from \<open>patches st threadId = Some p\<close> sync
        have pm: "patch_map ?ps threadId = Some p" by simp
        then obtain y ys where f: "filter (\<lambda>q. anchorId q = threadId) ?ps = y # ys"
            and l: "last (y # ys) = p"
          by (auto simp: patch_map_eq split: list.splits)
        have "p \<in> set (filter (\<lambda>q. anchorId q = threadId) ?ps)"
          unfolding f using l by (metis last_in_set list.discI)
        then have pin: "p \<in> set ?ps" by simp
        then have ne: "?ps \<noteq> []" by auto
        from ne ok obtain m where m: "patches_key (storage st) = Some (Json m)"
            and md: "m docId = Some ?ps"
          by (auto simp: getPatches_healthy split: option.splits stored.splits)
        from pin obtain i where i: "findIndex (\<lambda>q. patch_id q = patch_id p) ?ps = Some i"
          using findIndex_mem [of p ?ps "\<lambda>q. patch_id q = patch_id p"] by auto
        let ?p' = "apply_updates now (set_status status_accepted) (?ps ! i)"
        have pi: "?ps ! i = p" using dist pin i by (rule findIndex_distinct)
        let ?ls1 = "(storage st)\<lparr>patches_key := Some (Json (m(docId \<mapsto> ?ps[i := ?p'])))\<rparr>"
        have u: "updatePatch now docId (patch_id p) (set_status status_accepted) (storage st)
            = (Some ?p', ?ls1)"
          using ok m md i by (rule updatePatch_found)
        have g1: "getPatches docId ?ls1 = ?ps[i := ?p']"
          using ok by (simp add: getPatches_healthy)
        have "patches (handleAcceptPatch now docId threadId p st)
            = patch_map (?ps[i := ?p'])"
          using handleAcceptPatch_patches [OF ed Some, of now docId] u g1 by simp
        moreover have "patch_map (?ps[i := ?p']) threadId = Some ?p'"
          using dist pm i by (rule patch_map_update) (simp add: pi apply_set_status)
        ultimately have "patches (click_accept now docId threadId st) threadId = Some ?p'"
          using c1 by simp
        moreover have "isResolved ?p'"
          by (simp add: isResolved_def apply_set_status)
        ultimately show ?thesis
          by (simp add: click_accept_def [of now'])
      qed
    qed
  qed
qed

text \<open>
  C3, as amended. The accept handler does not look at the status of the patch; the guard
  is in the patch card, which offers Accept only for an open patch. So a click on Accept
  for a thread whose patch is accepted (or rejected, or missing) changes nothing, the
  document included. And when the panel shows what is stored, the storage works and the
  stored patch identifiers of the document are distinct, a second click on Accept after a
  first one leaves the document as the first click left it.
\<close>

theorem click_accept_guard:
  "(patches st threadId = None \<longrightarrow> click_accept now docId threadId st = st)
   \<and> (patches st threadId = Some patch \<and> isResolved patch \<longrightarrow>
        click_accept now docId threadId st = st)
   \<and> (patches st threadId = Some patch \<and> status patch = status_accepted \<longrightarrow>
        editor (click_accept now docId threadId st) = editor st)
   \<and> (patches st = patch_map (getPatches docId (storage st))
        \<and> has_window (storage st) \<and> \<not> getItem_raises (storage st)
        \<and> \<not> setItem_raises (storage st)
        \<and> distinct (map patch_id (getPatches docId (storage st))) \<longrightarrow>
        editor (click_accept now' docId threadId (click_accept now docId threadId st))
          = editor (click_accept now docId threadId st))"
proof (intro conjI impI)
  assume "patches st threadId = None"
  then show "click_accept now docId threadId st = st" by (simp add: click_accept_def)
next
  assume "patches st threadId = Some patch \<and> isResolved patch"
  then show "click_accept now docId threadId st = st" by (simp add: click_accept_def)
next
  assume "patches st threadId = Some patch \<and> status patch = status_accepted"
  then show "editor (click_accept now docId threadId st) = editor st"
    by (simp add: click_accept_def isResolved_def)
next
  assume "patches st = patch_map (getPatches docId (storage st))
        \<and> has_window (storage st) \<and> \<not> getItem_raises (storage st)
        \<and> \<not> setItem_raises (storage st)
        \<and> distinct (map patch_id (getPatches docId (storage st)))"
  then show "editor (click_accept now' docId threadId (click_accept now docId threadId st))
          = editor (click_accept now docId threadId st)"
    by (intro click_accept_twice) simp_all
qed

theorem click_accept_guard_witness:
  "click_accept 6 ''d1'' ''t1''
     ((example_panel [OpenNode, TextNode ''abc foo foo'' [], CloseNode]
         (example_storage None
            (Some (Json [''d1'' \<mapsto> [example_patch ''p1'' ''d1'' ''t1'' status_accepted]]))))
        \<lparr>patches := [''t1'' \<mapsto> example_patch ''p1'' ''d1'' ''t1'' status_accepted]\<rparr>)
   = (example_panel [OpenNode, TextNode ''abc foo foo'' [], CloseNode]
         (example_storage None
            (Some (Json [''d1'' \<mapsto> [example_patch ''p1'' ''d1'' ''t1'' status_accepted]]))))
        \<lparr>patches := [''t1'' \<mapsto> example_patch ''p1'' ''d1'' ''t1'' status_accepted]\<rparr>
   \<and> editor (click_accept 6 ''d1'' ''t1'' (click_accept 5 ''d1'' ''t1''
       ((example_panel [OpenNode, TextNode ''abc foo foo'' [], CloseNode]
           (example_storage None
              (Some (Json [''d1'' \<mapsto> [example_patch ''p1'' ''d1'' ''t1'' status_open]]))))
          \<lparr>patches := [''t1'' \<mapsto> example_patch ''p1'' ''d1'' ''t1'' status_open]\<rparr>)))
     = Some [OpenNode, TextNode ''abc '' [], TextNode ''baz'' [], TextNode '' foo'' [], CloseNode]"
proof -
  let ?doc = "[OpenNode, TextNode ''abc foo foo'' [], CloseNode]"
  let ?pa = "example_patch ''p1'' ''d1'' ''t1'' status_accepted"
  let ?po = "example_patch ''p1'' ''d1'' ''t1'' status_open"
  let ?sa = "(example_panel ?doc (example_storage None (Some (Json [''d1'' \<mapsto> [?pa]]))))
               \<lparr>patches := [''t1'' \<mapsto> ?pa]\<rparr>"
  let ?so = "(example_panel ?doc (example_storage None (Some (Json [''d1'' \<mapsto> [?po]]))))
               \<lparr>patches := [''t1'' \<mapsto> ?po]\<rparr>"
  have r: "accept_range ?doc ''t1'' ?po = Some (5, 8)"
    by (simp add: accept_range_eq searchText_def findAnchorRange_def descendants_def visit_def
          getText_def trim_def is_white_space_def example_patch_def)
  have one: "editor (click_accept 5 ''d1'' ''t1'' ?so)
      = Some [OpenNode, TextNode ''abc '' [], TextNode ''baz'' [], TextNode '' foo'' [], CloseNode]"
  proof -
    have o: "\<not> isResolved ?po" by (simp add: isResolved_def example_patch_def)
    have e: "editor ?so = Some ?doc" by (simp add: example_panel_def)
    have "editor (click_accept 5 ''d1'' ''t1'' ?so)
        = Some (accept_transaction (library ?so) (5, 8) (proposedText ?po) ?doc)"
      by (simp add: click_accept_def o handleAcceptPatch_editor e r)
    then show ?thesis
      by (simp add: example_patch_def accept_transaction_def setTextSelection_def
            insertContent_def unsetComment_def plain_text_def text_range_def cut_between_def
            doc_size_def marksAcross_def Let_def)
  qed
  have g: "getPatches ''d1'' (storage ?so) = [?po]"
    by (simp add: example_panel_def example_storage_def getPatches_def getPatches_try_def
          getItem_patches_def JSON_parse_def)
  have s: "patches ?so = patch_map (getPatches ''d1'' (storage ?so))"
    unfolding g by (simp add: patch_map_def example_panel_def example_patch_def)
  show ?thesis
    using click_accept_guard [where st = ?sa and threadId = "''t1''" and patch = ?pa
        and now = 6 and now' = 6 and docId = "''d1''"]
      click_accept_guard [where st = ?so and threadId = "''t1''" and patch = ?po
        and now = 5 and now' = 6 and docId = "''d1''"] one s g
    by (simp add: isResolved_def example_panel_def example_storage_def example_patch_def)
qed

text \<open>
  C3 as stated fails for the handler itself: called with a patch whose status is already
  \<open>accepted\<close>, it replaces the next occurrence of the original text.
\<close>

theorem accept_handler_twice_counterexample:
  "status (example_patch ''p1'' ''d1'' ''t1'' status_accepted) = status_accepted
   \<and> editor (handleAcceptPatch 6 ''d1'' ''t1'' (example_patch ''p1'' ''d1'' ''t1'' status_accepted)
       (example_panel [OpenNode, TextNode ''abc baz foo'' [], CloseNode]
          (example_storage None
             (Some (Json [''d1'' \<mapsto> [example_patch ''p1'' ''d1'' ''t1'' status_accepted]])))))
     = Some [OpenNode, TextNode ''abc baz '' [], TextNode ''baz'' [], CloseNode]
   \<and> editor (handleAcceptPatch 6 ''d1'' ''t1'' (example_patch ''p1'' ''d1'' ''t1'' status_accepted)
       (example_panel [OpenNode, TextNode ''abc baz foo'' [], CloseNode]
          (example_storage None
             (Some (Json [''d1'' \<mapsto> [example_patch ''p1'' ''d1'' ''t1'' status_accepted]])))))
     \<noteq> editor (example_panel [OpenNode, TextNode ''abc baz foo'' [], CloseNode]
          (example_storage None
             (Some (Json [''d1'' \<mapsto> [example_patch ''p1'' ''d1'' ''t1'' status_accepted]]))))"
proof -
  have r: "accept_range [OpenNode, TextNode ''abc baz foo'' [], CloseNode] ''t1''
      (example_patch ''p1'' ''d1'' ''t1'' status_accepted) = Some (9, 12)"
    by (simp add: accept_range_eq searchText_def findAnchorRange_def descendants_def visit_def
          getText_def trim_def is_white_space_def example_patch_def)
  have "editor (handleAcceptPatch 6 ''d1'' ''t1'' (example_patch ''p1'' ''d1'' ''t1'' status_accepted)
       (example_panel [OpenNode, TextNode ''abc baz foo'' [], CloseNode]
          (example_storage None
             (Some (Json [''d1'' \<mapsto> [example_patch ''p1'' ''d1'' ''t1'' status_accepted]])))))
     = Some (accept_transaction example_library (9, 12)
         (proposedText (example_patch ''p1'' ''d1'' ''t1'' status_accepted))
         [OpenNode, TextNode ''abc baz foo'' [], CloseNode])"
    by (simp add: handleAcceptPatch_editor r example_panel_def)
  then show ?thesis
    by (simp add: example_panel_def example_patch_def accept_transaction_def
          setTextSelection_def insertContent_def unsetComment_def plain_text_def text_range_def
          cut_between_def doc_size_def marksAcross_def Let_def)
qed

end
